theory Spec2Isabelle
  imports Complex_Main "HOL-Library.Word" "HOL-Library.Sublist"
begin

section \<open>JavaScript strings and numbers\<close>

text \<open>
  A JavaScript string is a sequence of UTF-16 code units, and \<open>length\<close>, \<open>substring\<close>
  and \<open>includes\<close> count code units. ASCII literals of the source are written with
  \<open>utf16\<close>; the camera emoji U+1F4F7 is the surrogate pair D83D DCF7.
\<close>

type_synonym jsstring = "16 word list"

definition utf16 :: "string \<Rightarrow> jsstring" where
  "utf16 s = map (\<lambda>c. of_char c) s"

definition camera :: jsstring where
  "camera = [0xD83D, 0xDCF7]"

text \<open>\<open>String.prototype.includes\<close>: the needle occurs at some offset of the string.\<close>

fun js_includes :: "jsstring \<Rightarrow> jsstring \<Rightarrow> bool" where
  "js_includes [] needle = (needle = [])"
| "js_includes (c # cs) needle = (prefix needle (c # cs) \<or> js_includes cs needle)"

text \<open>
  \<open>String.prototype.trim\<close> removes white space and line terminators from both ends:
  TAB, LF, VT, FF, CR, SP, NBSP, the Unicode space separators, LS, PS and the BOM.
\<close>

definition is_whitespace :: "16 word \<Rightarrow> bool" where
  "is_whitespace c \<longleftrightarrow>
     c = 0x09 \<or> c = 0x0A \<or> c = 0x0B \<or> c = 0x0C \<or> c = 0x0D \<or> c = 0x20 \<or> c = 0xA0
     \<or> c = 0x1680 \<or> (0x2000 \<le> c \<and> c \<le> 0x200A) \<or> c = 0x2028 \<or> c = 0x2029
     \<or> c = 0x202F \<or> c = 0x205F \<or> c = 0x3000 \<or> c = 0xFEFF"

definition js_trim :: "jsstring \<Rightarrow> jsstring" where
  "js_trim s = rev (dropWhile is_whitespace (rev (dropWhile is_whitespace s)))"

text \<open>Numbers inside template literals are rendered in decimal.\<close>

fun nat_to_string :: "nat \<Rightarrow> jsstring" where
  "nat_to_string n =
     (if n < 10 then [of_nat (48 + n)]
      else nat_to_string (n div 10) @ [of_nat (48 + n mod 10)])"

definition int_to_string :: "int \<Rightarrow> jsstring" where
  "int_to_string i = (if i < 0 then utf16 ''-'' @ nat_to_string (nat (- i)) else nat_to_string (nat i))"

text \<open>
  Pixel coordinates are JavaScript numbers; they are modelled as rationals, on which
  the arithmetic of the source (sums, differences, halving, \<open>min\<close>, \<open>max\<close>) is exact.
  \<open>Math.round\<close> rounds to the nearest integer, a tie going up.
\<close>

definition Math_round :: "rat \<Rightarrow> int" where
  "Math_round r = \<lfloor>r + 1 / 2\<rfloor>"

datatype js_error = JsError string


section \<open>constants.ts: the platform registry\<close>

datatype Platform = chatgpt | claude | gemini | groq | unknown

record PlatformConfig =
  name :: jsstring
  hostname :: jsstring
  selectors :: "jsstring list"
  containerSelector :: "jsstring option"

definition PLATFORM_CONFIGS :: "Platform \<Rightarrow> PlatformConfig option" where
  "PLATFORM_CONFIGS p =
     (case p of
        chatgpt \<Rightarrow> Some \<lparr>name = utf16 ''ChatGPT'', hostname = utf16 ''chatgpt.com'',
          selectors = [utf16 ''[data-message-author-role=\"user\"]''],
          containerSelector = Some (utf16 ''main'')\<rparr>
      | claude \<Rightarrow> Some \<lparr>name = utf16 ''Claude'', hostname = utf16 ''claude.ai'',
          selectors = [utf16 ''.font-user-message''],
          containerSelector = Some (utf16 ''main'')\<rparr>
      | gemini \<Rightarrow> Some \<lparr>name = utf16 ''Gemini'', hostname = utf16 ''gemini.google.com'',
          selectors = [utf16 ''.user-query-wrapper'', utf16 ''[data-test-id=\"user-query\"]''],
          containerSelector = Some (utf16 ''main'')\<rparr>
      | groq \<Rightarrow> Some \<lparr>name = utf16 ''Groq'', hostname = utf16 ''groq.com'',
          selectors = [utf16 ''.message-user'', utf16 ''[data-role=\"user\"]''],
          containerSelector = Some (utf16 ''main'')\<rparr>
      | unknown \<Rightarrow> None)"

text \<open>\<open>detectPlatform\<close> reads \<open>window.location.hostname\<close>, here its argument.\<close>

definition detectPlatform :: "jsstring \<Rightarrow> Platform" where
  "detectPlatform h =
     (if js_includes h (utf16 ''chatgpt.com'') then chatgpt
      else if js_includes h (utf16 ''claude.ai'') then claude
      else if js_includes h (utf16 ''gemini.google.com'') then gemini
      else if js_includes h (utf16 ''groq.com'') then groq
      else unknown)"

definition getPlatformConfig :: "Platform \<Rightarrow> PlatformConfig option" where
  "getPlatformConfig p = PLATFORM_CONFIGS p"

definition MAX_PROMPT_TEXT_LENGTH :: nat where
  "MAX_PROMPT_TEXT_LENGTH = 80"

definition SCAN_DEBOUNCE_DELAY :: nat where
  "SCAN_DEBOUNCE_DELAY = 300"

text \<open>
  The registry as the specification words it: the known platforms in their fixed order,
  each with the \<open>hostnameMatch\<close> of its configuration record; the first platform whose
  \<open>hostnameMatch\<close> is a substring of the hostname wins, and no match gives \<open>unknown\<close>.
\<close>

definition known_platforms :: "Platform list" where
  "known_platforms = [chatgpt, claude, gemini, groq]"

definition hostname_matches :: "jsstring \<Rightarrow> Platform \<Rightarrow> bool" where
  "hostname_matches h p =
     (case PLATFORM_CONFIGS p of None \<Rightarrow> False | Some c \<Rightarrow> sublist (hostname c) h)"

definition identify :: "jsstring \<Rightarrow> Platform" where
  "identify h =
     (case find (hostname_matches h) known_platforms of None \<Rightarrow> unknown | Some p \<Rightarrow> p)"


section \<open>useChatScanner.ts: text extraction and the scan\<close>

text \<open>
  What the scan reads of a DOM element: its \<open>textContent\<close>, the number of \<open>img\<close>
  elements below it (the length of \<open>querySelectorAll("img")\<close>, a host call that may
  throw), the top-left corner of its bounding rectangle, and the identity of the node.
\<close>

record Element =
  textContent :: "jsstring option"
  images :: "js_error + nat"
  rect_top :: rat
  rect_left :: rat
  node :: nat

definition extractText :: "Element \<Rightarrow> js_error + jsstring" where
  "extractText el =
     (let text = (case textContent el of None \<Rightarrow> [] | Some s \<Rightarrow> js_trim s) in
      case images el of
        Inl e \<Rightarrow> Inl e
      | Inr imageCount \<Rightarrow>
          (let hasImages = (imageCount > 0);
               text' =
                 (if text = [] \<and> hasImages then
                    (if imageCount = 1 then camera @ utf16 '' [Image]''
                     else camera @ utf16 '' ['' @ nat_to_string imageCount @ utf16 '' Images]'')
                  else if text \<noteq> [] \<and> hasImages then camera @ utf16 '' '' @ text
                  else text)
           in if length text' > MAX_PROMPT_TEXT_LENGTH
              then Inr (take MAX_PROMPT_TEXT_LENGTH text' @ utf16 ''...'')
              else Inr text'))"

definition generatePromptId :: "Element \<Rightarrow> nat \<Rightarrow> jsstring" where
  "generatePromptId el i =
     utf16 ''prompt-'' @ nat_to_string i @ utf16 ''-'' @ int_to_string (Math_round (rect_top el))
       @ utf16 ''-'' @ int_to_string (Math_round (rect_left el))"

record ChatPrompt =
  prompt_id :: jsstring
  index :: nat
  prompt_text :: jsstring
  element :: Element
  timestamp :: nat

text \<open>
  The host environment of one scan: the hostname of the page, the document's
  \<open>querySelectorAll\<close> (which may throw), and the clock. \<open>Date.now()\<close> is read once for
  every prompt pushed; \<open>Date_now env k\<close> is the reading for the prompt pushed at counter
  value \<open>k\<close>.
\<close>

record env =
  location_hostname :: jsstring
  querySelectorAll :: "jsstring \<Rightarrow> js_error + Element list"
  Date_now :: "nat \<Rightarrow> nat"

text \<open>
  The body of \<open>elements.forEach\<close>, threading the two variables of the enclosing scope,
  \<open>foundPrompts\<close> and \<open>index\<close>; an exception of the callback ends the iteration.
\<close>

fun forEach_element ::
  "env \<Rightarrow> Element list \<Rightarrow> ChatPrompt list \<Rightarrow> nat \<Rightarrow> js_error + ChatPrompt list \<times> nat" where
  "forEach_element ev [] foundPrompts i = Inr (foundPrompts, i)"
| "forEach_element ev (el # els) foundPrompts i =
     (case extractText el of
        Inl e \<Rightarrow> Inl e
      | Inr txt \<Rightarrow>
          if txt = [] then forEach_element ev els foundPrompts i
          else forEach_element ev els
                 (foundPrompts @
                    [\<lparr>prompt_id = generatePromptId el i, index = i + 1, prompt_text = txt,
                      element = el, timestamp = Date_now ev i\<rparr>])
                 (i + 1))"

text \<open>The loop \<open>for (const selector of config.selectors)\<close> with its \<open>break\<close>.\<close>

fun for_selectors ::
  "env \<Rightarrow> jsstring list \<Rightarrow> ChatPrompt list \<Rightarrow> nat \<Rightarrow> js_error + ChatPrompt list" where
  "for_selectors ev [] foundPrompts i = Inr foundPrompts"
| "for_selectors ev (selector # rest) foundPrompts i =
     (case querySelectorAll ev selector of
        Inl e \<Rightarrow> Inl e
      | Inr elements \<Rightarrow>
          (case forEach_element ev elements foundPrompts i of
             Inl e \<Rightarrow> Inl e
           | Inr (foundPrompts', i') \<Rightarrow>
               if length foundPrompts' > 0 then Inr foundPrompts'
               else for_selectors ev rest foundPrompts' i'))"

text \<open>
  The state of the hook: the three React state variables and the \<open>scannedElementsRef\<close>
  cache (a set of nodes).
\<close>

record scanner =
  prompts :: "ChatPrompt list"
  platform :: Platform
  isScanning :: bool
  scannedElements :: "nat set"

definition initial_scanner :: scanner where
  "initial_scanner = \<lparr>prompts = [], platform = unknown, isScanning = False, scannedElements = {}\<rparr>"

text \<open>
  \<open>scanForPrompts\<close>. The result is \<open>Inl\<close> when an exception leaves the function; the
  \<open>try\<close> block is the loop, its \<open>catch\<close> logs, and \<open>finally\<close> resets \<open>isScanning\<close>.
\<close>

definition scanForPrompts :: "env \<Rightarrow> scanner \<Rightarrow> js_error + scanner" where
  "scanForPrompts ev st =
     (let currentPlatform = detectPlatform (location_hostname ev);
          st1 = st\<lparr>platform := currentPlatform\<rparr>
      in case getPlatformConfig currentPlatform of
           None \<Rightarrow> Inr st1
         | Some config \<Rightarrow>
             (let st2 = st1\<lparr>isScanning := True\<rparr> in
              case for_selectors ev (selectors config) [] 0 of
                Inr foundPrompts \<Rightarrow> Inr (st2\<lparr>prompts := foundPrompts, isScanning := False\<rparr>)
              | Inl error \<Rightarrow> Inr (st2\<lparr>isScanning := False\<rparr>)))"

text \<open>The manual rescan, and the callback that the debounce timer runs.\<close>

definition rescan :: "env \<Rightarrow> scanner \<Rightarrow> js_error + scanner" where
  "rescan ev st = scanForPrompts ev (st\<lparr>scannedElements := {}\<rparr>)"

definition debouncedScan_fire :: "env \<Rightarrow> scanner \<Rightarrow> js_error + scanner" where
  "debouncedScan_fire ev st = scanForPrompts ev st"

text \<open>The state of the hook after a sequence of scans from its initial state, each scan in
  the environment it finds.\<close>

definition after_scans :: "env list \<Rightarrow> scanner" where
  "after_scans evs =
     foldl (\<lambda>st ev. case scanForPrompts ev st of Inl e \<Rightarrow> st | Inr st' \<Rightarrow> st') initial_scanner evs"

text \<open>A prompt with its clock reading blanked.\<close>

definition without_timestamp :: "ChatPrompt \<Rightarrow> ChatPrompt" where
  "without_timestamp p = p\<lparr>timestamp := 0\<rparr>"

text \<open>The prompts that one selector alone gives on a fresh scan.\<close>

definition selector_prompts :: "env \<Rightarrow> jsstring \<Rightarrow> js_error + ChatPrompt list" where
  "selector_prompts ev selector =
     (case querySelectorAll ev selector of
        Inl e \<Rightarrow> Inl e
      | Inr elements \<Rightarrow>
          (case forEach_element ev elements [] 0 of
             Inl e \<Rightarrow> Inl e
           | Inr (found, i) \<Rightarrow> Inr found))"


section \<open>useChatScanner.ts: the debounced rescan\<close>

text \<open>
  Time is counted in milliseconds. The browser keeps a table of pending timers, each with
  the id that \<open>setTimeout\<close> returned for it and its deadline; ids are positive and are
  not reused. The closure of \<open>debounce\<close> holds \<open>timeoutId\<close>, the id of the timer it set
  last, or null. \<open>fired\<close> records the times at which a timer ran the scan. A timer
  runs at its deadline.
\<close>

record event_loop =
  timers :: "(nat \<times> nat) list"
  next_id :: nat
  timeoutId :: "nat option"
  fired :: "nat list"

definition event_loop_init :: event_loop where
  "event_loop_init = \<lparr>timers = [], next_id = 1, timeoutId = None, fired = []\<rparr>"

definition setTimeout :: "nat \<Rightarrow> nat \<Rightarrow> event_loop \<Rightarrow> nat \<times> event_loop" where
  "setTimeout delay now el =
     (next_id el,
      el\<lparr>timers := timers el @ [(next_id el, now + delay)], next_id := next_id el + 1\<rparr>)"

definition clearTimeout :: "nat \<Rightarrow> event_loop \<Rightarrow> event_loop" where
  "clearTimeout tid el = el\<lparr>timers := filter (\<lambda>t. fst t \<noteq> tid) (timers el)\<rparr>"

text \<open>
  A call of the debounced function at time \<open>now\<close>: \<open>if (timeoutId) clearTimeout(timeoutId)\<close>,
  where null and 0 are falsy, then \<open>timeoutId = setTimeout(..., delay)\<close>.
\<close>

definition debounced_call :: "nat \<Rightarrow> nat \<Rightarrow> event_loop \<Rightarrow> event_loop" where
  "debounced_call delay now el =
     (let el1 = (case timeoutId el of
                   None \<Rightarrow> el
                 | Some tid \<Rightarrow> if tid \<noteq> 0 then clearTimeout tid el else el);
          r = setTimeout delay now el1
      in (snd r)\<lparr>timeoutId := Some (fst r)\<rparr>)"

text \<open>The callback of the timer: \<open>fn(...args); timeoutId = null\<close>, \<open>fn\<close> being the scan.\<close>

definition timer_callback :: "nat \<Rightarrow> event_loop \<Rightarrow> event_loop" where
  "timer_callback at_time el = el\<lparr>fired := fired el @ [at_time], timeoutId := None\<rparr>"

text \<open>
  The event loop reaches time \<open>now\<close>: every timer of the table that is due leaves the
  table and runs its callback, the earliest deadline first.
\<close>

definition run_timers :: "nat \<Rightarrow> event_loop \<Rightarrow> event_loop" where
  "run_timers now el =
     foldl (\<lambda>e t. timer_callback (snd t) e)
       (el\<lparr>timers := filter (\<lambda>t. \<not> snd t \<le> now) (timers el)\<rparr>)
       (sort_key snd (filter (\<lambda>t. snd t \<le> now) (timers el)))"

datatype mutation_type = childList | characterData | attributes

record MutationRecord =
  mutation_type :: mutation_type
  addedNodes :: nat

definition hasRelevantChanges :: "MutationRecord list \<Rightarrow> bool" where
  "hasRelevantChanges mutations =
     list_ex (\<lambda>m. (mutation_type m = childList \<and> addedNodes m > 0) \<or> mutation_type m = characterData)
       mutations"

definition observer_callback :: "nat \<Rightarrow> MutationRecord list \<Rightarrow> event_loop \<Rightarrow> event_loop" where
  "observer_callback now mutations el =
     (if hasRelevantChanges mutations then debounced_call SCAN_DEBOUNCE_DELAY now el else el)"

text \<open>
  A run of the event loop over observer callbacks, each with the time at which it is
  delivered, and then the time that passes until the last pending timer has run.
\<close>

fun run_mutations :: "(nat \<times> MutationRecord list) list \<Rightarrow> event_loop \<Rightarrow> event_loop" where
  "run_mutations [] el = el"
| "run_mutations ((t, mutations) # rest) el =
     run_mutations rest (observer_callback t mutations (run_timers t el))"

definition run_to_quiescence :: "event_loop \<Rightarrow> event_loop" where
  "run_to_quiescence el = run_timers (foldr max (map snd (timers el)) 0) el"

text \<open>A burst: the delivery times do not decrease, and each gap is shorter than the delay.\<close>

fun burst :: "nat \<Rightarrow> nat list \<Rightarrow> bool" where
  "burst delay (t # u # ts) = (t \<le> u \<and> u < t + delay \<and> burst delay (u # ts))"
| "burst delay ts = True"


section \<open>ChatNavigator.tsx: the panel geometry\<close>

record Position =
  pos_x :: rat
  pos_y :: rat

record Size =
  width :: rat
  height :: rat

record viewport =
  innerWidth :: rat
  innerHeight :: rat

definition DEFAULT_PANEL_SIZE :: Size where
  "DEFAULT_PANEL_SIZE = \<lparr>width = 320, height = 400\<rparr>"

definition MIN_PANEL_SIZE :: Size where
  "MIN_PANEL_SIZE = \<lparr>width = 250, height = 200\<rparr>"

text \<open>The three state variables of the component and its five refs.\<close>

record panel =
  isCollapsed :: bool
  position :: Position
  panelSize :: Size
  isDragging :: bool
  isResizing :: bool
  dragStart :: Position
  resizeStart :: Size
  hasDragged :: bool

definition initial_panel :: panel where
  "initial_panel =
     \<lparr>isCollapsed = False, position = \<lparr>pos_x = 20, pos_y = 100\<rparr>, panelSize = DEFAULT_PANEL_SIZE,
      isDragging = False, isResizing = False, dragStart = \<lparr>pos_x = 0, pos_y = 0\<rparr>,
      resizeStart = \<lparr>width = 0, height = 0\<rparr>, hasDragged = False\<rparr>"

definition handleDragStart :: "rat \<Rightarrow> rat \<Rightarrow> panel \<Rightarrow> panel" where
  "handleDragStart clientX clientY st =
     st\<lparr>isDragging := True, hasDragged := False,
        dragStart := \<lparr>pos_x = clientX - pos_x (position st), pos_y = clientY - pos_y (position st)\<rparr>\<rparr>"

definition handleResizeStart :: "rat \<Rightarrow> rat \<Rightarrow> panel \<Rightarrow> panel" where
  "handleResizeStart clientX clientY st =
     st\<lparr>isResizing := True, dragStart := \<lparr>pos_x = clientX, pos_y = clientY\<rparr>,
        resizeStart := panelSize st\<rparr>"

definition handleMouseMove :: "viewport \<Rightarrow> rat \<Rightarrow> rat \<Rightarrow> panel \<Rightarrow> panel" where
  "handleMouseMove w clientX clientY st =
     (let st1 =
        (if isDragging st then
           (let newX = max 0 (min (innerWidth w - (if isCollapsed st then 48 else width (panelSize st)))
                                  (clientX - pos_x (dragStart st)));
                newY = max 0 (min (innerHeight w - 50) (clientY - pos_y (dragStart st)))
            in st\<lparr>hasDragged := True, position := \<lparr>pos_x = newX, pos_y = newY\<rparr>\<rparr>)
         else st)
      in if isResizing st1 then
           (let deltaX = clientX - pos_x (dragStart st1);
                deltaY = clientY - pos_y (dragStart st1);
                newWidth = max (width MIN_PANEL_SIZE) (width (resizeStart st1) + deltaX);
                newHeight = max (height MIN_PANEL_SIZE) (height (resizeStart st1) + deltaY)
            in st1\<lparr>panelSize := \<lparr>width = newWidth, height = newHeight\<rparr>\<rparr>)
         else st1)"

definition handleMouseUp :: "panel \<Rightarrow> panel" where
  "handleMouseUp st = st\<lparr>isDragging := False, isResizing := False\<rparr>"

definition handleWindowResize :: "viewport \<Rightarrow> panel \<Rightarrow> panel" where
  "handleWindowResize w st =
     (let prevPosition = position st;
          panelWidth = (if isCollapsed st then 48 else width (panelSize st));
          panelHeight = (if isCollapsed st then 48 else height (panelSize st));
          maxX = max 0 (innerWidth w - panelWidth);
          maxY = max 0 (innerHeight w - panelHeight);
          newX = min (pos_x prevPosition) maxX;
          newY = min (pos_y prevPosition) maxY
      in if newX \<noteq> pos_x prevPosition \<or> newY \<noteq> pos_y prevPosition
         then st\<lparr>position := \<lparr>pos_x = max 0 newX, pos_y = max 0 newY\<rparr>\<rparr>
         else st)"

definition handleMinimizedClick :: "panel \<Rightarrow> panel" where
  "handleMinimizedClick st = (if \<not> hasDragged st then st\<lparr>isCollapsed := False\<rparr> else st)"

definition handleCollapse :: "viewport \<Rightarrow> panel \<Rightarrow> panel" where
  "handleCollapse w st =
     (let collapsedSize = 48;
          padding = 12;
          panelCenterX = pos_x (position st) + width (panelSize st) / 2;
          panelCenterY = pos_y (position st) + height (panelSize st) / 2;
          distanceToLeft = panelCenterX;
          distanceToRight = innerWidth w - panelCenterX;
          distanceToTop = panelCenterY;
          distanceToBottom = innerHeight w - panelCenterY;
          minDistance = min (min (min distanceToLeft distanceToRight) distanceToTop) distanceToBottom;
          newPosition =
            (if minDistance = distanceToLeft then
               \<lparr>pos_x = padding,
                pos_y = max padding (min (innerHeight w - collapsedSize - padding)
                                         (panelCenterY - collapsedSize / 2))\<rparr>
             else if minDistance = distanceToRight then
               \<lparr>pos_x = innerWidth w - collapsedSize - padding,
                pos_y = max padding (min (innerHeight w - collapsedSize - padding)
                                         (panelCenterY - collapsedSize / 2))\<rparr>
             else if minDistance = distanceToTop then
               \<lparr>pos_x = max padding (min (innerWidth w - collapsedSize - padding)
                                         (panelCenterX - collapsedSize / 2)),
                pos_y = padding\<rparr>
             else
               \<lparr>pos_x = max padding (min (innerWidth w - collapsedSize - padding)
                                         (panelCenterX - collapsedSize / 2)),
                pos_y = innerHeight w - collapsedSize - padding\<rparr>)
      in st\<lparr>position := newPosition, isCollapsed := True\<rparr>)"

text \<open>
  The events of the panel. The collapsed view renders only the icon (mouse-down starts a
  drag, click is \<open>handleMinimizedClick\<close>); the expanded view renders the header, the
  collapse button and the resize handle. The mouse-move and mouse-up listeners are on
  the document, the resize listener on the window.
\<close>

datatype panel_event =
    DragStart rat rat
  | ResizeStart rat rat
  | MouseMove rat rat
  | MouseUp
  | MinimizedClick
  | Collapse
  | WindowResize rat rat

fun handle_event :: "viewport \<Rightarrow> panel_event \<Rightarrow> panel \<Rightarrow> panel" where
  "handle_event w (DragStart cx cy) st = handleDragStart cx cy st"
| "handle_event w (ResizeStart cx cy) st = (if isCollapsed st then st else handleResizeStart cx cy st)"
| "handle_event w (MouseMove cx cy) st = handleMouseMove w cx cy st"
| "handle_event w MouseUp st = handleMouseUp st"
| "handle_event w MinimizedClick st = (if isCollapsed st then handleMinimizedClick st else st)"
| "handle_event w Collapse st = (if isCollapsed st then st else handleCollapse w st)"
| "handle_event w (WindowResize iw ih) st = handleWindowResize w st"

text \<open>
  The effect with dependencies \<open>[size.width, size.height, isCollapsed]\<close> calls
  \<open>handleWindowResize\<close> after every render in which one of them has changed.
\<close>

definition size_effect :: "viewport \<Rightarrow> panel \<Rightarrow> panel \<Rightarrow> panel" where
  "size_effect w before after =
     (if width (panelSize after) \<noteq> width (panelSize before)
         \<or> height (panelSize after) \<noteq> height (panelSize before)
         \<or> isCollapsed after \<noteq> isCollapsed before
      then handleWindowResize w after else after)"

definition new_viewport :: "viewport \<Rightarrow> panel_event \<Rightarrow> viewport" where
  "new_viewport w e = (case e of WindowResize iw ih \<Rightarrow> \<lparr>innerWidth = iw, innerHeight = ih\<rparr> | _ \<Rightarrow> w)"

definition panel_step :: "viewport \<times> panel \<Rightarrow> panel_event \<Rightarrow> viewport \<times> panel" where
  "panel_step c e =
     (let w = new_viewport (fst c) e; st = snd c
      in (w, size_effect w st (handle_event w e st)))"

definition panel_run :: "viewport \<times> panel \<Rightarrow> panel_event list \<Rightarrow> viewport \<times> panel" where
  "panel_run c es = foldl panel_step c es"

text \<open>The component on mount: the effect runs \<open>handleWindowResize\<close> once.\<close>

definition panel_mount :: "viewport \<Rightarrow> viewport \<times> panel" where
  "panel_mount w = (w, handleWindowResize w initial_panel)"


section \<open>The geometry of the specification\<close>

text \<open>
  The footprint of the panel is its current size when expanded and the fixed 48 by 48
  icon when collapsed. \<open>contained\<close> is viewport containment as the data model states
  it; \<open>within_x\<close> and \<open>within_y\<close> are its two halves with the upper bound floored at
  0, which is where the position is pinned when the viewport is smaller than the footprint.
\<close>

definition footprint_width :: "panel \<Rightarrow> rat" where
  "footprint_width st = (if isCollapsed st then 48 else width (panelSize st))"

definition footprint_height :: "panel \<Rightarrow> rat" where
  "footprint_height st = (if isCollapsed st then 48 else height (panelSize st))"

definition contained :: "viewport \<Rightarrow> panel \<Rightarrow> bool" where
  "contained w st \<longleftrightarrow>
     0 \<le> pos_x (position st) \<and> pos_x (position st) \<le> innerWidth w - footprint_width st \<and>
     0 \<le> pos_y (position st) \<and> pos_y (position st) \<le> innerHeight w - footprint_height st"

definition within_x :: "viewport \<Rightarrow> panel \<Rightarrow> bool" where
  "within_x w st \<longleftrightarrow>
     0 \<le> pos_x (position st) \<and> pos_x (position st) \<le> max 0 (innerWidth w - footprint_width st)"

definition within_y :: "viewport \<Rightarrow> panel \<Rightarrow> bool" where
  "within_y w st \<longleftrightarrow>
     0 \<le> pos_y (position st) \<and> pos_y (position st) \<le> max 0 (innerHeight w - footprint_height st)"

text \<open>The vertical bound that a drag keeps: the top 50 pixels of the panel, or all of it
  when it is shorter, stay in the viewport.\<close>

definition grip_y :: "viewport \<Rightarrow> panel \<Rightarrow> bool" where
  "grip_y w st \<longleftrightarrow>
     0 \<le> pos_y (position st)
     \<and> pos_y (position st) \<le> max 0 (innerHeight w - min (footprint_height st) 50)"

text \<open>The transitions after which \<open>handleWindowResize\<close> has run: a window resize, and
  every transition that changed the size or the mode of the panel.\<close>

definition reflowed :: "panel \<Rightarrow> panel_event \<Rightarrow> panel \<Rightarrow> bool" where
  "reflowed before e after \<longleftrightarrow>
     (case e of WindowResize iw ih \<Rightarrow> True | _ \<Rightarrow> False)
     \<or> panelSize after \<noteq> panelSize before \<or> isCollapsed after \<noteq> isCollapsed before"

definition drag_move :: "panel \<Rightarrow> panel_event \<Rightarrow> bool" where
  "drag_move before e \<longleftrightarrow> (case e of MouseMove cx cy \<Rightarrow> isDragging before | _ \<Rightarrow> False)"

text \<open>The four viewport edges in their priority order, the distance of a point to each,
  and the place of the collapsed icon on each: at the padding from the edge, centred on
  the point along the edge and clamped to the viewport less the padding.\<close>

datatype edge = LeftEdge | RightEdge | TopEdge | BottomEdge


definition panel_center :: "panel \<Rightarrow> rat \<times> rat" where
  "panel_center st =
     (pos_x (position st) + width (panelSize st) / 2, pos_y (position st) + height (panelSize st) / 2)"

fun edge_distance :: "viewport \<Rightarrow> rat \<times> rat \<Rightarrow> edge \<Rightarrow> rat" where
  "edge_distance w c LeftEdge = fst c"
| "edge_distance w c RightEdge = innerWidth w - fst c"
| "edge_distance w c TopEdge = snd c"
| "edge_distance w c BottomEdge = innerHeight w - snd c"

definition clamp :: "rat \<Rightarrow> rat \<Rightarrow> rat \<Rightarrow> rat" where
  "clamp lo hi v = max lo (min hi v)"

fun snapped :: "viewport \<Rightarrow> rat \<times> rat \<Rightarrow> edge \<Rightarrow> Position" where
  "snapped w c LeftEdge =
     \<lparr>pos_x = 12, pos_y = clamp 12 (innerHeight w - 48 - 12) (snd c - 24)\<rparr>"
| "snapped w c RightEdge =
     \<lparr>pos_x = innerWidth w - 48 - 12, pos_y = clamp 12 (innerHeight w - 48 - 12) (snd c - 24)\<rparr>"
| "snapped w c TopEdge =
     \<lparr>pos_x = clamp 12 (innerWidth w - 48 - 12) (fst c - 24), pos_y = 12\<rparr>"
| "snapped w c BottomEdge =
     \<lparr>pos_x = clamp 12 (innerWidth w - 48 - 12) (fst c - 24), pos_y = innerHeight w - 48 - 12\<rparr>"


section \<open>Concrete pages and panels\<close>

text \<open>A page whose document answers each listed selector with the listed elements and
  every other selector with no element, at one clock reading; and a page whose
  \<open>querySelectorAll\<close> throws.\<close>

definition page :: "jsstring \<Rightarrow> (jsstring \<times> Element list) list \<Rightarrow> nat \<Rightarrow> env" where
  "page host matches now =
     \<lparr>location_hostname = host,
      querySelectorAll = (\<lambda>sel. case map_of matches sel of None \<Rightarrow> Inr [] | Some els \<Rightarrow> Inr els),
      Date_now = (\<lambda>k. now)\<rparr>"

definition broken_page :: "jsstring \<Rightarrow> nat \<Rightarrow> env" where
  "broken_page host now =
     \<lparr>location_hostname = host,
      querySelectorAll = (\<lambda>sel. Inl (JsError ''SyntaxError'')),
      Date_now = (\<lambda>k. now)\<rparr>"

definition text_element :: "jsstring \<Rightarrow> Element" where
  "text_element s = \<lparr>textContent = Some s, images = Inr 0, rect_top = 0, rect_left = 0, node = 0\<rparr>"

definition hi_prompt :: "nat \<Rightarrow> ChatPrompt" where
  "hi_prompt now =
     \<lparr>prompt_id = generatePromptId (text_element (utf16 ''hi'')) 0, index = 1,
      prompt_text = utf16 ''hi'', element = text_element (utf16 ''hi''), timestamp = now\<rparr>"

definition chatgpt_selector :: jsstring where
  "chatgpt_selector = utf16 ''[data-message-author-role=\"user\"]''"

definition chatgpt_page :: "Element list \<Rightarrow> nat \<Rightarrow> env" where
  "chatgpt_page els now = page (utf16 ''chatgpt.com'') [(chatgpt_selector, els)] now"

text \<open>A Gemini page on which the first selector matches one element that is still empty
  and the second selector matches the message.\<close>

definition gemini_page :: env where
  "gemini_page =
     page (utf16 ''gemini.google.com'')
       [(utf16 ''.user-query-wrapper'', [text_element []]),
        (utf16 ''[data-test-id=\"user-query\"]'', [text_element (utf16 ''hi'')])] 1000"

text \<open>A Gemini page on which both selectors of the configuration match a message.\<close>

definition gemini_both_page :: env where
  "gemini_both_page =
     page (utf16 ''gemini.google.com'')
       [(utf16 ''.user-query-wrapper'', [text_element (utf16 ''hi'')]),
        (utf16 ''[data-test-id=\"user-query\"]'', [text_element (utf16 ''yo'')])] 1000"

text \<open>Five child-list mutations, 50 ms apart.\<close>

definition five_mutations :: "(nat \<times> MutationRecord list) list" where
  "five_mutations =
     map (\<lambda>t. (t, [\<lparr>mutation_type = childList, addedNodes = 1\<rparr>])) [0, 50, 100, 150, 200]"

text \<open>The state that a scan of a ChatGPT page with the one message leaves at time 1000.\<close>

definition hi_scanned :: scanner where
  "hi_scanned = initial_scanner\<lparr>platform := chatgpt, prompts := [hi_prompt 1000]\<rparr>"

definition padded_text :: jsstring where
  "padded_text = replicate 50 0x20 @ replicate 70 0x61"

definition long_text :: jsstring where
  "long_text = replicate 120 0x61"

definition desktop :: viewport where
  "desktop = \<lparr>innerWidth = 1200, innerHeight = 800\<rparr>"

definition narrow :: viewport where
  "narrow = \<lparr>innerWidth = 50, innerHeight = 800\<rparr>"




declare nat_to_string.simps [simp del]


section \<open>Platform identification\<close>

lemma js_includes_sublist: "js_includes h needle \<longleftrightarrow> sublist needle h"
  by (induction h) (auto simp: sublist_Cons_right)

lemma detect_chatgpt: "detectPlatform (utf16 ''chatgpt.com'') = chatgpt"
  by (simp add: detectPlatform_def utf16_def)

lemma detect_gemini: "detectPlatform (utf16 ''gemini.google.com'') = gemini"
  by (simp add: detectPlatform_def utf16_def)

text \<open>
  C4. For every hostname, \<open>detectPlatform\<close> returns the first platform, in the fixed order
  chatgpt, claude, gemini, groq, whose configured \<open>hostname\<close> is a substring of the
  hostname, and \<open>unknown\<close> when none is; the configuration of \<open>unknown\<close> is null.
\<close>

theorem detectPlatform_identify:
  "detectPlatform h = identify h \<and> getPlatformConfig unknown = None"
  by (simp add: detectPlatform_def identify_def known_platforms_def hostname_matches_def
      PLATFORM_CONFIGS_def getPlatformConfig_def js_includes_sublist)


section \<open>Text extraction\<close>

lemma length_ellipsis: "length (utf16 ''...'') = 3"
  by (simp add: utf16_def)

lemma extractText_length:
  assumes "extractText el = Inr t"
  shows "length t \<le> MAX_PROMPT_TEXT_LENGTH + 3"
  using assms
  by (auto simp: extractText_def Let_def length_ellipsis split: sum.splits if_splits)

lemma js_trim_long_text: "js_trim long_text = long_text"
  by (simp add: js_trim_def long_text_def is_whitespace_def)

lemma js_trim_padded_text: "js_trim padded_text = replicate 70 0x61"
  by (simp add: js_trim_def padded_text_def dropWhile_append is_whitespace_def)

lemma extractText_long_text:
  "extractText (text_element long_text) = Inr (replicate 80 0x61 @ utf16 ''...'')"
  by (simp add: extractText_def text_element_def js_trim_long_text MAX_PROMPT_TEXT_LENGTH_def)
     (simp add: long_text_def)

text \<open>
  C8, as stated, fails on text with white space around it: an element without images
  whose \<open>textContent\<close> is 50 spaces followed by 70 letters (120 code units) is trimmed to
  the 70 letters, which are returned whole, not 83 code units.
\<close>

theorem extractText_untrimmed_counterexample:
  "length padded_text = 120 \<and> images (text_element padded_text) = Inr 0
   \<and> extractText (text_element padded_text) = Inr (replicate 70 0x61)
   \<and> length (replicate 70 (0x61 :: 16 word)) \<noteq> 83"
  by (simp add: text_element_def extractText_def js_trim_padded_text MAX_PROMPT_TEXT_LENGTH_def)
     (simp add: padded_text_def)

text \<open>
  C8, amended. For every element without images whose text content, once trimmed, has
  120 code units, \<open>extractText\<close> returns exactly 83 code units: the first 80 of the
  trimmed text followed by the three-character ellipsis.
\<close>

theorem extractText_truncates_trimmed:
  assumes "textContent el = Some s" and "images el = Inr 0" and "length (js_trim s) = 120"
  shows "extractText el = Inr (take 80 (js_trim s) @ utf16 ''...'')
         \<and> length (take 80 (js_trim s) @ utf16 ''...'') = 83"
  using assms by (simp add: extractText_def MAX_PROMPT_TEXT_LENGTH_def length_ellipsis)

theorem extractText_truncates_trimmed_witness:
  "textContent (text_element long_text) = Some long_text
   \<and> images (text_element long_text) = Inr 0
   \<and> length (js_trim long_text) = 120
   \<and> extractText (text_element long_text) = Inr (replicate 80 0x61 @ utf16 ''...'')
   \<and> length (replicate 80 (0x61 :: 16 word) @ utf16 ''...'') = 83"
  using extractText_truncates_trimmed [of "text_element long_text" long_text]
  by (simp add: text_element_def js_trim_long_text) (simp add: long_text_def)


section \<open>The length of the scanned texts\<close>

lemma forEach_element_length:
  assumes "forEach_element ev els found i = Inr (found', i')"
    and "\<forall>p\<in>set found. length (prompt_text p) \<le> MAX_PROMPT_TEXT_LENGTH + 3"
  shows "\<forall>p\<in>set found'. length (prompt_text p) \<le> MAX_PROMPT_TEXT_LENGTH + 3"
  using assms
proof (induction els arbitrary: found i)
  case Nil
  then show ?case by simp
next
  case (Cons el els)
  show ?case
  proof (cases "extractText el")
    case (Inl e)
    with Cons.prems show ?thesis by simp
  next
    case (Inr tx)
    show ?thesis
    proof (cases "tx = []")
      case True
      with Cons Inr show ?thesis by simp
    next
      case False
      let ?p = "\<lparr>prompt_id = generatePromptId el i, index = i + 1, prompt_text = tx,
                 element = el, timestamp = Date_now ev i\<rparr>"
      from Inr False Cons.prems(1)
      have run: "forEach_element ev els (found @ [?p]) (i + 1) = Inr (found', i')" by simp
      have "\<forall>p\<in>set (found @ [?p]). length (prompt_text p) \<le> MAX_PROMPT_TEXT_LENGTH + 3"
        using Cons.prems(2) extractText_length [OF Inr] by simp
      with Cons.IH [OF run] show ?thesis by blast
    qed
  qed
qed

lemma for_selectors_length:
  assumes "for_selectors ev sels found i = Inr ps"
    and "\<forall>p\<in>set found. length (prompt_text p) \<le> MAX_PROMPT_TEXT_LENGTH + 3"
  shows "\<forall>p\<in>set ps. length (prompt_text p) \<le> MAX_PROMPT_TEXT_LENGTH + 3"
  using assms
proof (induction sels arbitrary: found i)
  case Nil
  then show ?case by simp
next
  case (Cons sel sels)
  from Cons.prems(1) obtain elements found' i'
    where q: "querySelectorAll ev sel = Inr elements"
      and f: "forEach_element ev elements found i = Inr (found', i')"
    by (auto split: sum.splits)
  have bound: "\<forall>p\<in>set found'. length (prompt_text p) \<le> MAX_PROMPT_TEXT_LENGTH + 3"
    using forEach_element_length [OF f Cons.prems(2)] .
  show ?case
  proof (cases "length found' > 0")
    case True
    with Cons.prems(1) q f have "ps = found'" by simp
    with bound show ?thesis by simp
  next
    case False
    with Cons.prems(1) q f have "for_selectors ev sels found' i' = Inr ps" by simp
    from Cons.IH [OF this bound] show ?thesis .
  qed
qed

lemma scan_long_text:
  "scanForPrompts (chatgpt_page [text_element long_text] 1000) initial_scanner =
     Inr (initial_scanner\<lparr>platform := chatgpt, prompts :=
       [\<lparr>prompt_id = generatePromptId (text_element long_text) 0, index = 1,
         prompt_text = replicate 80 0x61 @ utf16 ''...'', element = text_element long_text,
         timestamp = 1000\<rparr>]\<rparr>)"
  by (simp add: scanForPrompts_def chatgpt_page_def page_def detect_chatgpt getPlatformConfig_def
      PLATFORM_CONFIGS_def chatgpt_selector_def extractText_long_text initial_scanner_def)

text \<open>
  C9, as stated, fails: on a ChatGPT page whose one user message is 120 letters long,
  the scan publishes a prompt whose text has 83 code units, more than the maximum of 80.
\<close>

theorem scan_text_length_counterexample:
  "scanForPrompts (chatgpt_page [text_element long_text] 1000) initial_scanner =
     Inr (initial_scanner\<lparr>platform := chatgpt, prompts :=
       [\<lparr>prompt_id = generatePromptId (text_element long_text) 0, index = 1,
         prompt_text = replicate 80 0x61 @ utf16 ''...'', element = text_element long_text,
         timestamp = 1000\<rparr>]\<rparr>)
   \<and> length (replicate 80 (0x61 :: 16 word) @ utf16 ''...'') = 83
   \<and> \<not> 83 \<le> MAX_PROMPT_TEXT_LENGTH"
  by (simp add: scan_long_text length_ellipsis MAX_PROMPT_TEXT_LENGTH_def)

lemma scanForPrompts_length:
  assumes "scanForPrompts ev st = Inr st'"
    and "\<forall>p\<in>set (prompts st). length (prompt_text p) \<le> MAX_PROMPT_TEXT_LENGTH + 3"
  shows "\<forall>p\<in>set (prompts st'). length (prompt_text p) \<le> MAX_PROMPT_TEXT_LENGTH + 3"
proof (cases "getPlatformConfig (detectPlatform (location_hostname ev))")
  case None
  with assms show ?thesis by (auto simp: scanForPrompts_def Let_def)
next
  case (Some config)
  show ?thesis
  proof (cases "for_selectors ev (selectors config) [] 0")
    case (Inl e)
    with Some assms show ?thesis by (auto simp: scanForPrompts_def Let_def)
  next
    case (Inr ps)
    from for_selectors_length [OF Inr]
    have "\<forall>p\<in>set ps. length (prompt_text p) \<le> MAX_PROMPT_TEXT_LENGTH + 3"
      by simp
    with Some Inr assms(1) show ?thesis by (auto simp: scanForPrompts_def Let_def)
  qed
qed

lemma after_scans_snoc:
  "after_scans (evs @ [ev]) =
     (case scanForPrompts ev (after_scans evs) of Inl e \<Rightarrow> after_scans evs | Inr st' \<Rightarrow> st')"
  unfolding after_scans_def by simp

text \<open>
  C9, amended. After every sequence of scans, the text of every prompt in the published
  list has at most the maximum length plus the three characters of the ellipsis, that
  is 83 code units.
\<close>

theorem scan_text_length_bound:
  "\<forall>p\<in>set (prompts (after_scans evs)). length (prompt_text p) \<le> MAX_PROMPT_TEXT_LENGTH + 3"
proof (induction evs rule: rev_induct)
  case Nil
  show ?case by (simp add: after_scans_def initial_scanner_def)
next
  case (snoc ev evs)
  show ?case
  proof (cases "scanForPrompts ev (after_scans evs)")
    case (Inl e)
    with snoc show ?thesis by (simp add: after_scans_snoc)
  next
    case (Inr st')
    from scanForPrompts_length [OF Inr snoc] Inr show ?thesis
      by (simp add: after_scans_snoc)
  qed
qed

theorem scan_text_length_bound_witness:
  "prompts (after_scans [chatgpt_page [text_element long_text] 1000]) =
       [\<lparr>prompt_id = generatePromptId (text_element long_text) 0, index = 1,
         prompt_text = replicate 80 0x61 @ utf16 ''...'', element = text_element long_text,
         timestamp = 1000\<rparr>]
   \<and> length (replicate 80 (0x61 :: 16 word) @ utf16 ''...'') \<le> MAX_PROMPT_TEXT_LENGTH + 3"
proof -
  have "after_scans [chatgpt_page [text_element long_text] 1000] =
      initial_scanner\<lparr>platform := chatgpt, prompts :=
       [\<lparr>prompt_id = generatePromptId (text_element long_text) 0, index = 1,
         prompt_text = replicate 80 0x61 @ utf16 ''...'', element = text_element long_text,
         timestamp = 1000\<rparr>]\<rparr>"
    unfolding after_scans_def by (simp add: scan_long_text)
  with scan_text_length_bound [of "[chatgpt_page [text_element long_text] 1000]"]
  show ?thesis by simp
qed


section \<open>The selector loop\<close>

lemma forEach_element_counter:
  "forEach_element ev els found i = Inr (found', i') \<Longrightarrow> length found' + i = length found + i'"
proof (induction els arbitrary: found i)
  case Nil
  then show ?case by simp
next
  case (Cons el els)
  then show ?case
    by (cases "extractText el") (fastforce split: if_splits)+
qed

lemma forEach_element_clock:
  "Date_now ev' = Date_now ev \<Longrightarrow> forEach_element ev' els found i = forEach_element ev els found i"
  by (induction els arbitrary: found i) (auto split: sum.splits)

lemma selector_prompts_cong:
  assumes "Date_now ev' = Date_now ev" and "querySelectorAll ev' s = querySelectorAll ev s"
  shows "selector_prompts ev' s = selector_prompts ev s"
  using assms by (auto simp: selector_prompts_def forEach_element_clock [of ev' ev] split: sum.splits)

lemma for_selectors_skip:
  assumes "\<forall>s\<in>set pre. selector_prompts ev s = Inr []"
  shows "for_selectors ev (pre @ rest) [] 0 = for_selectors ev rest [] 0"
  using assms
proof (induction pre)
  case Nil
  then show ?case by simp
next
  case (Cons s pre)
  from Cons.prems have sp: "selector_prompts ev s = Inr []" by simp
  then obtain elements i where q: "querySelectorAll ev s = Inr elements"
    and f: "forEach_element ev elements [] 0 = Inr ([], i)"
    by (auto simp: selector_prompts_def split: sum.splits)
  from forEach_element_counter [OF f] have "i = 0" by simp
  with q f Cons show ?case by simp
qed

lemma for_selectors_hit:
  assumes "selector_prompts ev sel = Inr ps" and "ps \<noteq> []"
  shows "for_selectors ev (sel # post) [] 0 = Inr ps"
  using assms by (auto simp: selector_prompts_def split: sum.splits)

lemma for_selectors_first_productive:
  assumes "\<forall>s\<in>set pre. selector_prompts ev s = Inr []"
    and "selector_prompts ev sel = Inr ps" and "ps \<noteq> []"
  shows "for_selectors ev (pre @ sel # post) [] 0 = Inr ps
    \<and> (\<forall>ev'. Date_now ev' = Date_now ev
            \<and> (\<forall>s\<in>set (pre @ [sel]). querySelectorAll ev' s = querySelectorAll ev s)
          \<longrightarrow> for_selectors ev' (pre @ sel # post) [] 0 = Inr ps)"
proof -
  have main: "for_selectors e (pre @ sel # post) [] 0 = Inr ps"
    if "\<forall>s\<in>set pre. selector_prompts e s = Inr []" and "selector_prompts e sel = Inr ps" for e
  proof -
    have "for_selectors e (pre @ sel # post) [] 0 = for_selectors e (sel # post) [] 0"
      using that(1) by (rule for_selectors_skip)
    also have "\<dots> = Inr ps"
      using that(2) assms(3) by (rule for_selectors_hit)
    finally show ?thesis .
  qed
  have "for_selectors ev' (pre @ sel # post) [] 0 = Inr ps"
    if c: "Date_now ev' = Date_now ev"
      and q: "\<forall>s\<in>set (pre @ [sel]). querySelectorAll ev' s = querySelectorAll ev s" for ev'
  proof (rule main)
    show "\<forall>s\<in>set pre. selector_prompts ev' s = Inr []"
      using assms(1) q by (simp add: selector_prompts_cong [OF c])
    show "selector_prompts ev' sel = Inr ps"
      using assms(2) q by (simp add: selector_prompts_cong [OF c])
  qed
  with main [OF assms(1,2)] show ?thesis by blast
qed

lemma extractText_hi: "extractText (text_element (utf16 ''hi'')) = Inr (utf16 ''hi'')"
  by (simp add: extractText_def text_element_def js_trim_def utf16_def is_whitespace_def
      MAX_PROMPT_TEXT_LENGTH_def)

lemma extractText_yo: "extractText (text_element (utf16 ''yo'')) = Inr (utf16 ''yo'')"
  by (simp add: extractText_def text_element_def js_trim_def utf16_def is_whitespace_def
      MAX_PROMPT_TEXT_LENGTH_def)

lemma extractText_blank: "extractText (text_element []) = Inr []"
  by (simp add: extractText_def text_element_def js_trim_def MAX_PROMPT_TEXT_LENGTH_def)

lemma utf16_hi_not_empty: "utf16 ''hi'' \<noteq> []"
  by (simp add: utf16_def)

lemma gemini_selectors:
  "getPlatformConfig gemini = Some \<lparr>name = utf16 ''Gemini'', hostname = utf16 ''gemini.google.com'',
          selectors = [utf16 ''.user-query-wrapper'', utf16 ''[data-test-id=\"user-query\"]''],
          containerSelector = Some (utf16 ''main'')\<rparr>"
  by (simp add: getPlatformConfig_def PLATFORM_CONFIGS_def)

lemma gemini_page_first: "querySelectorAll gemini_page (utf16 ''.user-query-wrapper'') = Inr [text_element []]"
  by (simp add: gemini_page_def page_def)

lemma gemini_page_second:
  "querySelectorAll gemini_page (utf16 ''[data-test-id=\"user-query\"]'') = Inr [text_element (utf16 ''hi'')]"
  by (simp add: gemini_page_def page_def utf16_def)

lemma gemini_page_loop:
  "for_selectors gemini_page
        [utf16 ''.user-query-wrapper'', utf16 ''[data-test-id=\"user-query\"]''] [] 0
      = Inr [hi_prompt 1000]"
  by (simp add: gemini_page_first gemini_page_second extractText_blank extractText_hi
      utf16_hi_not_empty hi_prompt_def)
     (simp add: gemini_page_def page_def)


lemma gemini_page_host: "location_hostname gemini_page = utf16 ''gemini.google.com''"
  by (simp add: gemini_page_def page_def)

lemma gemini_page_scan:
  "scanForPrompts gemini_page initial_scanner
      = Inr (initial_scanner\<lparr>platform := gemini, prompts := [hi_prompt 1000]\<rparr>)"
  by (simp add: scanForPrompts_def gemini_page_host detect_gemini gemini_selectors
      gemini_page_loop initial_scanner_def del: for_selectors.simps)

lemma scanForPrompts_cong:
  assumes "location_hostname ev' = location_hostname ev"
    and "getPlatformConfig (detectPlatform (location_hostname ev)) = Some config"
    and "for_selectors ev' (selectors config) [] 0 = for_selectors ev (selectors config) [] 0"
  shows "scanForPrompts ev' st = scanForPrompts ev st"
  using assms by (simp add: scanForPrompts_def del: for_selectors.simps)

text \<open>
  C1, amended. For every document state and every platform whose configuration lists
  its selectors as \<open>pre @ sel # post\<close>: when no selector of \<open>pre\<close> gives a prompt (each
  matches nothing, or only elements whose extracted text is empty) and \<open>sel\<close> gives at
  least one, the scan publishes exactly the prompts of \<open>sel\<close>; and no selector of
  \<open>post\<close> is evaluated, the scan being the same on every document that answers the
  selectors up to \<open>sel\<close> alike. So if selectors A (index 0) and B (index 1) would both
  give prompts, only those of A are published.
\<close>

theorem scan_first_productive_selector:
  assumes "getPlatformConfig (detectPlatform (location_hostname ev)) = Some config"
    and "selectors config = pre @ sel # post"
    and "\<forall>s\<in>set pre. selector_prompts ev s = Inr []"
    and "selector_prompts ev sel = Inr ps" and "ps \<noteq> []"
  shows "scanForPrompts ev st
       = Inr (st\<lparr>platform := detectPlatform (location_hostname ev), prompts := ps,
                 isScanning := False\<rparr>)
    \<and> (\<forall>ev'. location_hostname ev' = location_hostname ev \<and> Date_now ev' = Date_now ev
            \<and> (\<forall>s\<in>set (pre @ [sel]). querySelectorAll ev' s = querySelectorAll ev s)
          \<longrightarrow> scanForPrompts ev' st = scanForPrompts ev st)"
proof -
  note loop = for_selectors_first_productive [OF assms(3,4,5), of post]
  from loop have here: "for_selectors ev (selectors config) [] 0 = Inr ps"
    by (simp add: assms(2))
  with assms(1) have "scanForPrompts ev st
       = Inr (st\<lparr>platform := detectPlatform (location_hostname ev), prompts := ps,
                 isScanning := False\<rparr>)"
    by (simp add: scanForPrompts_def del: for_selectors.simps)
  moreover have "scanForPrompts ev' st = scanForPrompts ev st"
    if "location_hostname ev' = location_hostname ev" and "Date_now ev' = Date_now ev"
      and "\<forall>s\<in>set (pre @ [sel]). querySelectorAll ev' s = querySelectorAll ev s" for ev'
  proof -
    from loop that(2,3) have "for_selectors ev' (pre @ sel # post) [] 0 = Inr ps"
      by blast
    with here have "for_selectors ev' (selectors config) [] 0
        = for_selectors ev (selectors config) [] 0"
      by (simp add: assms(2))
    with that(1) assms(1) show ?thesis
      by (rule scanForPrompts_cong)
  qed
  ultimately show ?thesis by blast
qed

lemma gemini_both_first:
  "selector_prompts gemini_both_page (utf16 ''.user-query-wrapper'') = Inr [hi_prompt 1000]"
  by (simp add: selector_prompts_def gemini_both_page_def page_def extractText_hi
      utf16_hi_not_empty hi_prompt_def)

lemma gemini_both_second:
  "selector_prompts gemini_both_page (utf16 ''[data-test-id=\"user-query\"]'')
     = Inr [\<lparr>prompt_id = generatePromptId (text_element (utf16 ''yo'')) 0, index = 1,
             prompt_text = utf16 ''yo'', element = text_element (utf16 ''yo''),
             timestamp = 1000\<rparr>]"
proof -
  have "utf16 ''yo'' \<noteq> []"
    by (simp add: utf16_def)
  moreover have "querySelectorAll gemini_both_page (utf16 ''[data-test-id=\"user-query\"]'')
      = Inr [text_element (utf16 ''yo'')]"
    by (simp add: gemini_both_page_def page_def utf16_def)
  moreover have "Date_now gemini_both_page 0 = 1000"
    by (simp add: gemini_both_page_def page_def)
  ultimately show ?thesis
    by (simp add: selector_prompts_def extractText_yo)
qed

lemma gemini_both_host: "location_hostname gemini_both_page = utf16 ''gemini.google.com''"
  by (simp add: gemini_both_page_def page_def)

lemma gemini_page_first_prompts:
  "selector_prompts gemini_page (utf16 ''.user-query-wrapper'') = Inr []"
  by (simp add: selector_prompts_def gemini_page_first extractText_blank)

lemma gemini_page_second_prompts:
  "selector_prompts gemini_page (utf16 ''[data-test-id=\"user-query\"]'') = Inr [hi_prompt 1000]"
proof -
  have "Date_now gemini_page 0 = 1000"
    by (simp add: gemini_page_def page_def)
  then show ?thesis
    by (simp add: selector_prompts_def gemini_page_second extractText_hi utf16_hi_not_empty
        hi_prompt_def)
qed

theorem scan_first_productive_selector_witness:
  "selector_prompts gemini_both_page (utf16 ''.user-query-wrapper'') = Inr [hi_prompt 1000]
   \<and> selector_prompts gemini_both_page (utf16 ''[data-test-id=\"user-query\"]'')
     = Inr [\<lparr>prompt_id = generatePromptId (text_element (utf16 ''yo'')) 0, index = 1,
             prompt_text = utf16 ''yo'', element = text_element (utf16 ''yo''),
             timestamp = 1000\<rparr>]
   \<and> scanForPrompts gemini_both_page initial_scanner
     = Inr (initial_scanner\<lparr>platform := gemini, prompts := [hi_prompt 1000]\<rparr>)
   \<and> selector_prompts gemini_page (utf16 ''.user-query-wrapper'') = Inr []
   \<and> selector_prompts gemini_page (utf16 ''[data-test-id=\"user-query\"]'') = Inr [hi_prompt 1000]
   \<and> scanForPrompts gemini_page initial_scanner
     = Inr (initial_scanner\<lparr>platform := gemini, prompts := [hi_prompt 1000]\<rparr>)"
proof -
  let ?w = "utf16 ''.user-query-wrapper''"
  let ?q = "utf16 ''[data-test-id=\"user-query\"]''"
  let ?config = "\<lparr>name = utf16 ''Gemini'', hostname = utf16 ''gemini.google.com'',
          selectors = [?w, ?q], containerSelector = Some (utf16 ''main'')\<rparr>"
  have c1: "getPlatformConfig (detectPlatform (location_hostname gemini_both_page)) = Some ?config"
    by (simp add: gemini_both_host detect_gemini gemini_selectors)
  have c2: "getPlatformConfig (detectPlatform (location_hostname gemini_page)) = Some ?config"
    by (simp add: gemini_page_host detect_gemini gemini_selectors)
  have s1: "selectors ?config = [] @ ?w # [?q]" and s2: "selectors ?config = [?w] @ ?q # []"
    by simp_all
  have p1: "\<forall>s\<in>set []. selector_prompts gemini_both_page s = Inr []"
    by simp
  have p2: "\<forall>s\<in>set [?w]. selector_prompts gemini_page s = Inr []"
    by (simp add: gemini_page_first_prompts)
  have ne: "[hi_prompt 1000] \<noteq> []"
    by simp
  from scan_first_productive_selector [OF c1 s1 p1 gemini_both_first ne, of initial_scanner]
  have a: "scanForPrompts gemini_both_page initial_scanner
     = Inr (initial_scanner\<lparr>platform := gemini, prompts := [hi_prompt 1000]\<rparr>)"
    by (simp add: gemini_both_host detect_gemini initial_scanner_def)
  from scan_first_productive_selector [OF c2 s2 p2 gemini_page_second_prompts ne, of initial_scanner]
  have b: "scanForPrompts gemini_page initial_scanner
     = Inr (initial_scanner\<lparr>platform := gemini, prompts := [hi_prompt 1000]\<rparr>)"
    by (simp add: gemini_page_host detect_gemini initial_scanner_def)
  from a b show ?thesis
    by (simp add: gemini_both_first gemini_both_second gemini_page_first_prompts
        gemini_page_second_prompts)
qed

text \<open>
  C1, as stated, fails where the first selector that matches an element gives no prompt:
  on a Gemini page whose \<open>.user-query-wrapper\<close> matches one element with empty text
  and whose second selector matches the message, the first selector yields an element
  and contributes nothing, the second selector is evaluated, and the published list is
  made from its match.
\<close>

theorem scan_first_matching_counterexample:
  "querySelectorAll gemini_page (utf16 ''.user-query-wrapper'') = Inr [text_element []]
   \<and> selector_prompts gemini_page (utf16 ''.user-query-wrapper'') = Inr []
   \<and> scanForPrompts gemini_page initial_scanner
      = Inr (initial_scanner\<lparr>platform := gemini, prompts := [hi_prompt 1000]\<rparr>)
   \<and> element (hi_prompt 1000) = text_element (utf16 ''hi'')"
  by (simp add: gemini_page_first gemini_page_scan selector_prompts_def extractText_blank
      hi_prompt_def)


section \<open>Absent configuration and exceptions\<close>

text \<open>An exception of the image query ends the extraction, the iteration and the loop.\<close>

lemma extractText_throws: "images el = Inl e \<Longrightarrow> extractText el = Inl e"
  by (simp add: extractText_def)

lemma for_selectors_extraction_throws:
  assumes "querySelectorAll ev sel = Inr (el # els)" and "images el = Inl e"
  shows "for_selectors ev (sel # rest) found i = Inl e"
  using assms by (simp add: extractText_throws)

lemma for_selectors_query_throws:
  assumes "querySelectorAll ev sel = Inl e"
  shows "for_selectors ev (sel # rest) found i = Inl e"
  using assms by simp

lemma getPlatformConfig_None: "getPlatformConfig p = None \<longleftrightarrow> p = unknown"
  by (cases p) (simp_all add: getPlatformConfig_def PLATFORM_CONFIGS_def)

text \<open>
  C3, amended. For every scan invocation: if the platform configuration is absent, the
  scan sets the platform to \<open>unknown\<close>, publishes no prompt list (the list published
  before stays as it is, empty when nothing was published yet) and stops; if an
  exception is thrown during selector evaluation or extraction, the scan publishes no
  list either, so the list published before stays, and the scanning flag is reset. In
  neither case, nor in any other, does an exception leave \<open>scanForPrompts\<close>.
\<close>

theorem scan_failure_keeps_list:
  "(getPlatformConfig (detectPlatform (location_hostname ev)) = None
      \<longrightarrow> scanForPrompts ev st = Inr (st\<lparr>platform := unknown\<rparr>))
   \<and> (\<forall>config e. getPlatformConfig (detectPlatform (location_hostname ev)) = Some config
          \<and> for_selectors ev (selectors config) [] 0 = Inl e
      \<longrightarrow> scanForPrompts ev st
          = Inr (st\<lparr>platform := detectPlatform (location_hostname ev), isScanning := False\<rparr>))
   \<and> (\<exists>st'. scanForPrompts ev st = Inr st')"
proof (intro conjI allI impI)
  assume none: "getPlatformConfig (detectPlatform (location_hostname ev)) = None"
  then have "detectPlatform (location_hostname ev) = unknown"
    by (simp add: getPlatformConfig_None)
  with none show "scanForPrompts ev st = Inr (st\<lparr>platform := unknown\<rparr>)"
    by (simp add: scanForPrompts_def)
next
  fix config e
  assume "getPlatformConfig (detectPlatform (location_hostname ev)) = Some config
          \<and> for_selectors ev (selectors config) [] 0 = Inl e"
  then show "scanForPrompts ev st
          = Inr (st\<lparr>platform := detectPlatform (location_hostname ev), isScanning := False\<rparr>)"
    by (simp add: scanForPrompts_def)
next
  show "\<exists>st'. scanForPrompts ev st = Inr st'"
    by (simp add: scanForPrompts_def Let_def split: option.splits sum.splits)
qed

lemma chatgpt_selectors:
  "getPlatformConfig chatgpt = Some \<lparr>name = utf16 ''ChatGPT'', hostname = utf16 ''chatgpt.com'',
          selectors = [chatgpt_selector], containerSelector = Some (utf16 ''main'')\<rparr>"
  by (simp add: getPlatformConfig_def PLATFORM_CONFIGS_def chatgpt_selector_def)

lemma chatgpt_page_host: "location_hostname (chatgpt_page els now) = utf16 ''chatgpt.com''"
  by (simp add: chatgpt_page_def page_def)

lemma chatgpt_page_query: "querySelectorAll (chatgpt_page els now) chatgpt_selector = Inr els"
  by (simp add: chatgpt_page_def page_def)

lemma chatgpt_page_clock: "Date_now (chatgpt_page els now) k = now"
  by (simp add: chatgpt_page_def page_def)

lemma chatgpt_page_loop:
  "for_selectors (chatgpt_page [text_element (utf16 ''hi'')] now) [chatgpt_selector] [] 0 = Inr [hi_prompt now]"
  by (simp add: chatgpt_page_query chatgpt_page_clock extractText_hi utf16_hi_not_empty hi_prompt_def)

lemma chatgpt_page_scan:
  "scanForPrompts (chatgpt_page [text_element (utf16 ''hi'')] now) (initial_scanner\<lparr>scannedElements := c\<rparr>)
     = Inr (initial_scanner\<lparr>platform := chatgpt, prompts := [hi_prompt now], scannedElements := c\<rparr>)"
  by (simp add: scanForPrompts_def chatgpt_page_host detect_chatgpt chatgpt_selectors
      chatgpt_page_loop initial_scanner_def del: for_selectors.simps)

lemma broken_page_loop:
  "for_selectors (broken_page h now) [chatgpt_selector] [] 0 = Inl (JsError ''SyntaxError'')"
  by (simp add: broken_page_def)

lemma broken_page_scan:
  "scanForPrompts (broken_page (utf16 ''chatgpt.com'') 2000) hi_scanned = Inr hi_scanned"
proof -
  have "location_hostname (broken_page (utf16 ''chatgpt.com'') 2000) = utf16 ''chatgpt.com''"
    by (simp add: broken_page_def)
  then show ?thesis
    by (simp add: scanForPrompts_def detect_chatgpt chatgpt_selectors broken_page_loop
        hi_scanned_def initial_scanner_def del: for_selectors.simps)
qed

lemma chatgpt_page_scan_initial:
  "scanForPrompts (chatgpt_page [text_element (utf16 ''hi'')] 1000) initial_scanner = Inr hi_scanned"
  using chatgpt_page_scan [of 1000 "{}"] by (simp add: hi_scanned_def initial_scanner_def)

text \<open>
  C3, as stated, fails after a successful scan: when a first scan has published one
  prompt and \<open>querySelectorAll\<close> throws during the next scan, the published list
  still holds that prompt; it is not empty.
\<close>

theorem scan_failure_counterexample:
  "scanForPrompts (chatgpt_page [text_element (utf16 ''hi'')] 1000) initial_scanner = Inr hi_scanned
   \<and> for_selectors (broken_page (utf16 ''chatgpt.com'') 2000) [chatgpt_selector] [] 0
        = Inl (JsError ''SyntaxError'')
   \<and> scanForPrompts (broken_page (utf16 ''chatgpt.com'') 2000) hi_scanned = Inr hi_scanned
   \<and> prompts hi_scanned = [hi_prompt 1000]
   \<and> prompts hi_scanned \<noteq> []"
proof -
  have "prompts hi_scanned = [hi_prompt 1000]"
    by (simp add: hi_scanned_def)
  then show ?thesis
    using chatgpt_page_scan_initial broken_page_loop broken_page_scan by simp
qed

lemma detect_example: "detectPlatform (utf16 ''example.com'') = unknown"
  by (simp add: detectPlatform_def utf16_def)

theorem scan_failure_keeps_list_witness:
  "getPlatformConfig (detectPlatform (location_hostname (page (utf16 ''example.com'') [] 2000))) = None
   \<and> scanForPrompts (page (utf16 ''example.com'') [] 2000) hi_scanned
        = Inr (hi_scanned\<lparr>platform := unknown\<rparr>)
   \<and> getPlatformConfig (detectPlatform (location_hostname (broken_page (utf16 ''chatgpt.com'') 2000)))
        = getPlatformConfig chatgpt
   \<and> scanForPrompts (broken_page (utf16 ''chatgpt.com'') 2000) hi_scanned
        = Inr (hi_scanned\<lparr>platform := chatgpt, isScanning := False\<rparr>)"
proof -
  have h1: "location_hostname (page (utf16 ''example.com'') [] 2000) = utf16 ''example.com''"
    by (simp add: page_def)
  have h2: "location_hostname (broken_page (utf16 ''chatgpt.com'') 2000) = utf16 ''chatgpt.com''"
    by (simp add: broken_page_def)
  show ?thesis
    using scan_failure_keeps_list [of "page (utf16 ''example.com'') [] 2000" hi_scanned]
      scan_failure_keeps_list [of "broken_page (utf16 ''chatgpt.com'') 2000" hi_scanned]
    by (simp add: h1 h2 detect_example detect_chatgpt getPlatformConfig_None chatgpt_selectors
        broken_page_loop del: for_selectors.simps)
qed


section \<open>Manual rescan and debounced scan\<close>

lemma forEach_element_untimed:
  assumes "map without_timestamp found' = map without_timestamp found"
  shows "map_sum id (map_prod (map without_timestamp) id) (forEach_element ev' els found' i)
       = map_sum id (map_prod (map without_timestamp) id) (forEach_element ev els found i)"
  using assms
proof (induction els arbitrary: found found' i)
  case Nil
  then show ?case by simp
next
  case (Cons el els)
  show ?case
  proof (cases "extractText el")
    case (Inl e)
    then show ?thesis by simp
  next
    case (Inr tx)
    show ?thesis
    proof (cases "tx = []")
      case True
      with Inr Cons show ?thesis by simp
    next
      case False
      let ?p = "\<lambda>e. \<lparr>prompt_id = generatePromptId el i, index = i + 1, prompt_text = tx,
                 element = el, timestamp = Date_now e i\<rparr>"
      have "without_timestamp (?p ev') = without_timestamp (?p ev)"
        by (simp add: without_timestamp_def)
      with Cons.prems
      have "map without_timestamp (found' @ [?p ev']) = map without_timestamp (found @ [?p ev])"
        by simp
      from Cons.IH [OF this] Inr False show ?thesis by simp
    qed
  qed
qed

lemma for_selectors_untimed:
  assumes "querySelectorAll ev' = querySelectorAll ev"
    and "map without_timestamp found' = map without_timestamp found"
  shows "map_sum id (map without_timestamp) (for_selectors ev' sels found' i)
       = map_sum id (map without_timestamp) (for_selectors ev sels found i)"
  using assms(2)
proof (induction sels arbitrary: found found' i)
  case Nil
  then show ?case by simp
next
  case (Cons sel sels)
  show ?case
  proof (cases "querySelectorAll ev sel")
    case (Inl e)
    with assms(1) show ?thesis by simp
  next
    case (Inr elements)
    note rel = forEach_element_untimed [OF Cons.prems, of ev' elements i ev]
    show ?thesis
    proof (cases "forEach_element ev elements found i")
      case (Inl e)
      with rel have "forEach_element ev' elements found' i = Inl e"
        by (cases "forEach_element ev' elements found' i") simp_all
      with Inl Inr assms(1) show ?thesis by simp
    next
      case inr: (Inr r)
      obtain f j where r: "r = (f, j)" by (cases r)
      from rel inr r obtain f' where
        f': "forEach_element ev' elements found' i = Inr (f', j)"
        and same: "map without_timestamp f' = map without_timestamp f"
        by (cases "forEach_element ev' elements found' i") auto
      from same have "length f' = length f"
        by (metis length_map)
      then have "f' = [] \<longleftrightarrow> f = []"
        by auto
      with Cons.IH [OF same] inr r f' Inr assms(1) same show ?thesis by simp
    qed
  qed
qed

lemma for_selectors_clock:
  assumes "querySelectorAll ev' = querySelectorAll ev" and "Date_now ev' = Date_now ev"
  shows "for_selectors ev' sels found i = for_selectors ev sels found i"
  using assms
  by (induction sels arbitrary: found i)
     (auto simp: forEach_element_clock [of ev' ev] split: sum.splits)

text \<open>
  C10, amended. For every document state (the answers of \<open>querySelectorAll\<close>) and
  hostname, and every state of the hook, a manual rescan and a debounced scan leave
  published prompt lists that agree in the id, index, text and element of every prompt,
  whatever the scanned-elements cache holds; they are identical when the clock readings
  of the two scans agree, the timestamp of a prompt being the clock reading at its scan.
\<close>

theorem rescan_debounced_same_prompts:
  assumes "location_hostname ev' = location_hostname ev"
    and "querySelectorAll ev' = querySelectorAll ev"
  shows "\<exists>r d. rescan ev st = Inr r \<and> debouncedScan_fire ev' (st\<lparr>scannedElements := c\<rparr>) = Inr d
           \<and> map without_timestamp (prompts r) = map without_timestamp (prompts d)
           \<and> (Date_now ev' = Date_now ev \<longrightarrow> prompts r = prompts d)"
proof (cases "getPlatformConfig (detectPlatform (location_hostname ev))")
  case None
  with assms(1) show ?thesis
    by (simp add: rescan_def debouncedScan_fire_def scanForPrompts_def)
next
  case (Some config)
  note untimed = for_selectors_untimed [OF assms(2), of "[]" "[]" "selectors config" 0]
  have clock: "Date_now ev' = Date_now ev \<Longrightarrow>
      for_selectors ev' (selectors config) [] 0 = for_selectors ev (selectors config) [] 0"
    using assms(2) by (rule for_selectors_clock)
  show ?thesis
  proof (cases "for_selectors ev (selectors config) [] 0")
    case (Inl e)
    with untimed have "for_selectors ev' (selectors config) [] 0 = Inl e"
      by (cases "for_selectors ev' (selectors config) [] 0") simp_all
    with Inl Some assms(1) show ?thesis
      by (simp add: rescan_def debouncedScan_fire_def scanForPrompts_def)
  next
    case (Inr ps)
    with untimed obtain ps' where ps': "for_selectors ev' (selectors config) [] 0 = Inr ps'"
      and same: "map without_timestamp ps' = map without_timestamp ps"
      by (cases "for_selectors ev' (selectors config) [] 0") auto
    from clock Inr ps' have "Date_now ev' = Date_now ev \<Longrightarrow> ps = ps'" by simp
    with Inr ps' same Some assms(1) show ?thesis
      by (simp add: rescan_def debouncedScan_fire_def scanForPrompts_def)
  qed
qed

text \<open>
  C10, as stated, fails on the timestamps: on the same document and hostname, a manual
  rescan at clock reading 1000 and a debounced scan at clock reading 1300 publish lists
  that differ in the timestamp of their prompt.
\<close>

theorem rescan_debounced_counterexample:
  "location_hostname (chatgpt_page [text_element (utf16 ''hi'')] 1000)
     = location_hostname (chatgpt_page [text_element (utf16 ''hi'')] 1300)
   \<and> querySelectorAll (chatgpt_page [text_element (utf16 ''hi'')] 1000)
     = querySelectorAll (chatgpt_page [text_element (utf16 ''hi'')] 1300)
   \<and> rescan (chatgpt_page [text_element (utf16 ''hi'')] 1000) initial_scanner
     = Inr (initial_scanner\<lparr>platform := chatgpt, prompts := [hi_prompt 1000]\<rparr>)
   \<and> debouncedScan_fire (chatgpt_page [text_element (utf16 ''hi'')] 1300) initial_scanner
     = Inr (initial_scanner\<lparr>platform := chatgpt, prompts := [hi_prompt 1300]\<rparr>)
   \<and> [hi_prompt 1000] \<noteq> [hi_prompt 1300]"
proof -
  have "rescan (chatgpt_page [text_element (utf16 ''hi'')] 1000) initial_scanner
     = Inr (initial_scanner\<lparr>platform := chatgpt, prompts := [hi_prompt 1000]\<rparr>)"
    using chatgpt_page_scan [of 1000 "{}"] by (simp add: rescan_def initial_scanner_def)
  moreover have "debouncedScan_fire (chatgpt_page [text_element (utf16 ''hi'')] 1300) initial_scanner
     = Inr (initial_scanner\<lparr>platform := chatgpt, prompts := [hi_prompt 1300]\<rparr>)"
    using chatgpt_page_scan [of 1300 "{}"] by (simp add: debouncedScan_fire_def initial_scanner_def)
  moreover have "[hi_prompt 1000] \<noteq> [hi_prompt 1300]"
    by (simp add: hi_prompt_def)
  ultimately show ?thesis
    by (simp add: chatgpt_page_def page_def)
qed

theorem rescan_debounced_same_prompts_witness:
  "rescan (chatgpt_page [text_element (utf16 ''hi'')] 1000) initial_scanner
     = Inr (initial_scanner\<lparr>platform := chatgpt, prompts := [hi_prompt 1000]\<rparr>)
   \<and> debouncedScan_fire (chatgpt_page [text_element (utf16 ''hi'')] 1300)
        (initial_scanner\<lparr>scannedElements := {7}\<rparr>)
     = Inr (initial_scanner\<lparr>platform := chatgpt, prompts := [hi_prompt 1300], scannedElements := {7}\<rparr>)
   \<and> map without_timestamp [hi_prompt 1000] = map without_timestamp [hi_prompt 1300]"
proof -
  have r: "rescan (chatgpt_page [text_element (utf16 ''hi'')] 1000) initial_scanner
     = Inr (initial_scanner\<lparr>platform := chatgpt, prompts := [hi_prompt 1000]\<rparr>)"
    using chatgpt_page_scan [of 1000 "{}"] by (simp add: rescan_def initial_scanner_def)
  have d: "debouncedScan_fire (chatgpt_page [text_element (utf16 ''hi'')] 1300)
        (initial_scanner\<lparr>scannedElements := {7}\<rparr>)
     = Inr (initial_scanner\<lparr>platform := chatgpt, prompts := [hi_prompt 1300], scannedElements := {7}\<rparr>)"
    using chatgpt_page_scan [of 1300 "{7}"] by (simp add: debouncedScan_fire_def)
  have h: "location_hostname (chatgpt_page [text_element (utf16 ''hi'')] 1300)
     = location_hostname (chatgpt_page [text_element (utf16 ''hi'')] 1000)"
    and q: "querySelectorAll (chatgpt_page [text_element (utf16 ''hi'')] 1300)
     = querySelectorAll (chatgpt_page [text_element (utf16 ''hi'')] 1000)"
    by (simp_all add: chatgpt_page_def page_def)
  from rescan_debounced_same_prompts [OF h q, of initial_scanner "{7}"] r d
  show ?thesis by simp
qed


section \<open>Debounce\<close>

lemma run_timers_none_due:
  assumes "\<forall>t\<in>set (timers el). now < snd t"
  shows "run_timers now el = el"
proof -
  from assms have "filter (\<lambda>t. snd t \<le> now) (timers el) = []"
    by (auto simp: filter_empty_conv)
  moreover from assms have "filter (\<lambda>t. \<not> snd t \<le> now) (timers el) = timers el"
    by (auto simp: filter_id_conv)
  ultimately show ?thesis
    by (simp add: run_timers_def)
qed

lemma debounced_call_idle:
  assumes "timers el = []" and "timeoutId el = None"
  shows "debounced_call delay now el
       = el\<lparr>timers := [(next_id el, now + delay)], next_id := next_id el + 1,
             timeoutId := Some (next_id el)\<rparr>"
  using assms by (simp add: debounced_call_def setTimeout_def)

lemma debounced_call_pending:
  assumes "timers el = [(tid, d)]" and "timeoutId el = Some tid" and "tid \<noteq> 0"
  shows "debounced_call delay now el
       = el\<lparr>timers := [(next_id el, now + delay)], next_id := next_id el + 1,
             timeoutId := Some (next_id el)\<rparr>"
  using assms by (simp add: debounced_call_def setTimeout_def clearTimeout_def)

text \<open>The closure is quiet when no timer is pending and \<open>timeoutId\<close> is null, and armed
  for a deadline when its one timer is the only timer pending.\<close>

lemma run_mutations_burst:
  assumes "evs \<noteq> []" and "\<forall>e\<in>set evs. hasRelevantChanges (snd e)"
    and "burst SCAN_DEBOUNCE_DELAY (map fst evs)"
    and "next_id el \<noteq> 0"
    and "(timers el = [] \<and> timeoutId el = None)
         \<or> (\<exists>tid d. timers el = [(tid, d)] \<and> timeoutId el = Some tid \<and> tid \<noteq> 0
               \<and> fst (hd evs) < d)"
  shows "\<exists>tid. tid \<noteq> 0
         \<and> run_mutations evs el
           = el\<lparr>timers := [(tid, fst (last evs) + SCAN_DEBOUNCE_DELAY)],
                next_id := next_id el + length evs, timeoutId := Some tid\<rparr>"
  using assms
proof (induction evs arbitrary: el)
  case Nil
  then show ?case by simp
next
  case (Cons e evs)
  obtain t m where e: "e = (t, m)" by (cases e)
  let ?el' = "el\<lparr>timers := [(next_id el, t + SCAN_DEBOUNCE_DELAY)], next_id := next_id el + 1,
                 timeoutId := Some (next_id el)\<rparr>"
  from Cons.prems(5) e have idle: "run_timers t el = el"
    by (intro run_timers_none_due) auto
  from Cons.prems(2) e have rel: "hasRelevantChanges m" by simp
  from Cons.prems(5) have "debounced_call SCAN_DEBOUNCE_DELAY t el = ?el'"
    by (auto simp: debounced_call_idle debounced_call_pending)
  with rel have cb: "observer_callback t m el = ?el'"
    by (simp add: observer_callback_def)
  show ?case
  proof (cases evs)
    case Nil
    with e idle cb Cons.prems(4) show ?thesis
      by (intro exI [of _ "next_id el"]) simp
  next
    case (Cons e' evs')
    obtain u m' where e': "e' = (u, m')" by (cases e')
    from Cons.prems(3) e e' Cons have gap: "u < t + SCAN_DEBOUNCE_DELAY"
      and rest: "burst SCAN_DEBOUNCE_DELAY (map fst evs)"
      by simp_all
    have "\<exists>tid. tid \<noteq> 0
         \<and> run_mutations evs ?el'
           = ?el'\<lparr>timers := [(tid, fst (last evs) + SCAN_DEBOUNCE_DELAY)],
                next_id := next_id ?el' + length evs, timeoutId := Some tid\<rparr>"
    proof (rule Cons.IH)
      show "evs \<noteq> []" using Cons by simp
      show "\<forall>e\<in>set evs. hasRelevantChanges (snd e)" using Cons.prems(2) by simp
      show "burst SCAN_DEBOUNCE_DELAY (map fst evs)" by (rule rest)
      show "next_id ?el' \<noteq> 0" by simp
      show "(timers ?el' = [] \<and> timeoutId ?el' = None)
         \<or> (\<exists>tid d. timers ?el' = [(tid, d)] \<and> timeoutId ?el' = Some tid \<and> tid \<noteq> 0
               \<and> fst (hd evs) < d)"
        using gap Cons e' Cons.prems(4) by simp
    qed
    then obtain tid where "tid \<noteq> 0" and "run_mutations evs ?el'
           = ?el'\<lparr>timers := [(tid, fst (last evs) + SCAN_DEBOUNCE_DELAY)],
                next_id := next_id ?el' + length evs, timeoutId := Some tid\<rparr>"
      by blast
    with e idle cb Cons show ?thesis
      by (intro exI [of _ tid]) simp
  qed
qed

lemma run_to_quiescence_armed:
  assumes "timers el = [(tid, d)]"
  shows "run_to_quiescence el = el\<lparr>timers := [], fired := fired el @ [d], timeoutId := None\<rparr>"
  using assms by (simp add: run_to_quiescence_def run_timers_def timer_callback_def)

text \<open>
  C5. For every non-empty sequence of qualifying mutation batches in which each batch
  arrives less than the 300 ms delay after the one before it, no scan runs during the
  burst, at its end one timer is pending and its deadline is 300 ms after the last
  batch (each batch has cleared the timer of the batch before and set its own), and
  exactly one scan runs afterwards, 300 ms after the last batch, leaving no timer
  pending. Timers are taken to run at their deadline.
\<close>

theorem debounce_coalesces_burst:
  assumes "evs \<noteq> []" and "\<forall>e\<in>set evs. hasRelevantChanges (snd e)"
    and "burst SCAN_DEBOUNCE_DELAY (map fst evs)"
  shows "fired (run_mutations evs event_loop_init) = []
    \<and> map snd (timers (run_mutations evs event_loop_init)) = [fst (last evs) + 300]
    \<and> fired (run_to_quiescence (run_mutations evs event_loop_init)) = [fst (last evs) + 300]
    \<and> timers (run_to_quiescence (run_mutations evs event_loop_init)) = []
    \<and> timeoutId (run_to_quiescence (run_mutations evs event_loop_init)) = None"
proof -
  have "\<exists>tid. tid \<noteq> 0
         \<and> run_mutations evs event_loop_init
           = event_loop_init\<lparr>timers := [(tid, fst (last evs) + SCAN_DEBOUNCE_DELAY)],
                next_id := next_id event_loop_init + length evs, timeoutId := Some tid\<rparr>"
    using assms by (rule run_mutations_burst) (simp_all add: event_loop_init_def)
  then obtain tid where run: "run_mutations evs event_loop_init
           = event_loop_init\<lparr>timers := [(tid, fst (last evs) + SCAN_DEBOUNCE_DELAY)],
                next_id := next_id event_loop_init + length evs, timeoutId := Some tid\<rparr>"
    by blast
  have t: "timers (run_mutations evs event_loop_init) = [(tid, fst (last evs) + SCAN_DEBOUNCE_DELAY)]"
    unfolding run by simp
  have f: "fired (run_mutations evs event_loop_init) = []"
    unfolding run by (simp add: event_loop_init_def)
  note q = run_to_quiescence_armed [OF t]
  show ?thesis
    by (simp add: q t f SCAN_DEBOUNCE_DELAY_def)
qed

theorem debounce_coalesces_burst_witness:
  "five_mutations \<noteq> [] \<and> list_all (\<lambda>e. hasRelevantChanges (snd e)) five_mutations
   \<and> burst SCAN_DEBOUNCE_DELAY (map fst five_mutations)
   \<and> fst (last five_mutations) = 200
   \<and> fired (run_to_quiescence (run_mutations five_mutations event_loop_init)) = [500]
   \<and> timers (run_to_quiescence (run_mutations five_mutations event_loop_init)) = []"
proof -
  have q: "\<forall>e\<in>set five_mutations. hasRelevantChanges (snd e)"
    by (simp add: five_mutations_def hasRelevantChanges_def)
  have b: "burst SCAN_DEBOUNCE_DELAY (map fst five_mutations)"
    by (simp add: five_mutations_def SCAN_DEBOUNCE_DELAY_def)
  have n: "five_mutations \<noteq> []"
    by (simp add: five_mutations_def)
  have l: "fst (last five_mutations) = 200"
    by (simp add: five_mutations_def)
  from debounce_coalesces_burst [OF n q b] q b n l show ?thesis
    by (simp add: list_all_iff)
qed

text \<open>Two qualifying batches as far apart as the delay are not coalesced: the timer of
  the first runs before the second arrives.\<close>

lemma spaced_mutations_fire_twice:
  "fired (run_to_quiescence (run_mutations
      [(0, [\<lparr>mutation_type = characterData, addedNodes = 0\<rparr>]),
       (300, [\<lparr>mutation_type = characterData, addedNodes = 0\<rparr>])] event_loop_init))
   = [300, 600]"
  by (simp add: run_to_quiescence_def run_timers_def timer_callback_def observer_callback_def
      hasRelevantChanges_def debounced_call_def setTimeout_def clearTimeout_def
      event_loop_init_def SCAN_DEBOUNCE_DELAY_def)

section \<open>Collapse and expand\<close>


lemma handleCollapse_position:
  "position (handleCollapse w st) =
     (if min (min (min (edge_distance w (panel_center st) LeftEdge)
                       (edge_distance w (panel_center st) RightEdge))
                  (edge_distance w (panel_center st) TopEdge))
             (edge_distance w (panel_center st) BottomEdge)
           = edge_distance w (panel_center st) LeftEdge
      then snapped w (panel_center st) LeftEdge
      else if min (min (min (edge_distance w (panel_center st) LeftEdge)
                       (edge_distance w (panel_center st) RightEdge))
                  (edge_distance w (panel_center st) TopEdge))
             (edge_distance w (panel_center st) BottomEdge)
           = edge_distance w (panel_center st) RightEdge
      then snapped w (panel_center st) RightEdge
      else if min (min (min (edge_distance w (panel_center st) LeftEdge)
                       (edge_distance w (panel_center st) RightEdge))
                  (edge_distance w (panel_center st) TopEdge))
             (edge_distance w (panel_center st) BottomEdge)
           = edge_distance w (panel_center st) TopEdge
      then snapped w (panel_center st) TopEdge
      else snapped w (panel_center st) BottomEdge)"
  by (simp add: handleCollapse_def Let_def panel_center_def clamp_def split del: if_split cong: if_cong)




lemma handleWindowResize_flags:
  "isCollapsed (handleWindowResize w st) = isCollapsed st"
  "hasDragged (handleWindowResize w st) = hasDragged st"
  "isDragging (handleWindowResize w st) = isDragging st"
  "isResizing (handleWindowResize w st) = isResizing st"
  "panelSize (handleWindowResize w st) = panelSize st"
  by (simp_all add: handleWindowResize_def Let_def)

lemma size_effect_flags:
  "isCollapsed (size_effect w before after) = isCollapsed after"
  "hasDragged (size_effect w before after) = hasDragged after"
  "isDragging (size_effect w before after) = isDragging after"
  "isResizing (size_effect w before after) = isResizing after"
  "panelSize (size_effect w before after) = panelSize after"
  by (simp_all add: size_effect_def handleWindowResize_flags)

lemma handleMouseMove_flags:
  "isCollapsed (handleMouseMove w cx cy st) = isCollapsed st"
  "isDragging (handleMouseMove w cx cy st) = isDragging st"
  "hasDragged (handleMouseMove w cx cy st) \<longleftrightarrow> isDragging st \<or> hasDragged st"
  by (simp_all add: handleMouseMove_def Let_def)

lemma panel_step_fst: "fst (panel_step (w, st) e) = new_viewport w e"
  by (simp add: panel_step_def Let_def)






section \<open>Viewport containment\<close>

lemma handleWindowResize_position:
  assumes "0 \<le> pos_x (position st)" and "0 \<le> pos_y (position st)"
  shows "pos_x (position (handleWindowResize w st))
           = min (pos_x (position st)) (max 0 (innerWidth w - footprint_width st))"
    and "pos_y (position (handleWindowResize w st))
           = min (pos_y (position st)) (max 0 (innerHeight w - footprint_height st))"
  using assms
  by (auto simp: handleWindowResize_def Let_def footprint_width_def footprint_height_def)

lemma footprint_handleWindowResize:
  "footprint_width (handleWindowResize w st) = footprint_width st"
  "footprint_height (handleWindowResize w st) = footprint_height st"
  by (simp_all add: footprint_width_def footprint_height_def handleWindowResize_flags)

lemma handleWindowResize_within:
  assumes "0 \<le> pos_x (position st)" and "0 \<le> pos_y (position st)"
  shows "within_x w (handleWindowResize w st)" and "within_y w (handleWindowResize w st)"
  using assms
  by (simp_all add: within_x_def within_y_def handleWindowResize_position
      footprint_handleWindowResize)

lemma handleCollapse_isCollapsed: "isCollapsed (handleCollapse w st)"
  by (simp add: handleCollapse_def Let_def)

lemma snapped_nonneg:
  assumes "60 \<le> innerWidth w" and "60 \<le> innerHeight w"
  shows "0 \<le> pos_x (snapped w c e)" and "0 \<le> pos_y (snapped w c e)"
  using assms by (cases e; simp add: clamp_def le_max_iff_disj)+

lemma handleCollapse_nonneg:
  assumes "60 \<le> innerWidth w" and "60 \<le> innerHeight w"
  shows "0 \<le> pos_x (position (handleCollapse w st))"
    and "0 \<le> pos_y (position (handleCollapse w st))"
  unfolding handleCollapse_position
  by (simp_all add: snapped_nonneg [OF assms] del: snapped.simps edge_distance.simps)

lemma handleMouseMove_position:
  "0 \<le> pos_x (position st) \<Longrightarrow> 0 \<le> pos_x (position (handleMouseMove w cx cy st))"
  "0 \<le> pos_y (position st) \<Longrightarrow> 0 \<le> pos_y (position (handleMouseMove w cx cy st))"
  "\<not> isDragging st \<Longrightarrow> position (handleMouseMove w cx cy st) = position st"
  by (simp_all add: handleMouseMove_def Let_def)

lemma handleMouseMove_within_x:
  assumes "within_x w st" and "panelSize (handleMouseMove w cx cy st) = panelSize st"
  shows "within_x w (handleMouseMove w cx cy st)"
proof (cases "isDragging st")
  case True
  have "max 0 (min a t) \<le> max 0 a" for a t :: rat
    by (simp add: max_def min_def)
  with True assms(2) show ?thesis
    by (simp add: within_x_def footprint_width_def handleMouseMove_flags)
       (simp add: handleMouseMove_def Let_def)
next
  case False
  with assms show ?thesis
    by (auto simp: within_x_def footprint_width_def handleMouseMove_flags handleMouseMove_position)
qed

lemma handle_event_nonneg:
  assumes "0 \<le> pos_x (position st)" and "0 \<le> pos_y (position st)"
    and "e = Collapse \<longrightarrow> 60 \<le> innerWidth w \<and> 60 \<le> innerHeight w"
    and "\<forall>iw ih. e \<noteq> WindowResize iw ih"
  shows "0 \<le> pos_x (position (handle_event w e st)) \<and> 0 \<le> pos_y (position (handle_event w e st))"
  using assms
  by (cases e)
     (simp_all add: handleDragStart_def handleResizeStart_def handleMouseUp_def
       handleMinimizedClick_def handleMouseMove_position handleCollapse_nonneg)

lemma handle_event_same_footprint:
  assumes "within_x w st"
    and "panelSize (handle_event w e st) = panelSize st"
    and "isCollapsed (handle_event w e st) = isCollapsed st"
    and "\<forall>iw ih. e \<noteq> WindowResize iw ih"
  shows "within_x w (handle_event w e st)"
proof (cases e)
  case (MouseMove cx cy)
  with assms show ?thesis by (simp add: handleMouseMove_within_x)
next
  case MinimizedClick
  with assms show ?thesis
    by (auto simp: handleMinimizedClick_def split: if_splits)
next
  case Collapse
  with assms show ?thesis
    by (cases "isCollapsed st") (simp_all add: handleCollapse_isCollapsed)
qed (use assms in \<open>auto simp: within_x_def footprint_width_def handleDragStart_def
      handleResizeStart_def handleMouseUp_def\<close>)

lemma handle_event_still:
  assumes "\<not> drag_move st e"
    and "panelSize (handle_event w e st) = panelSize st"
    and "isCollapsed (handle_event w e st) = isCollapsed st"
    and "\<forall>iw ih. e \<noteq> WindowResize iw ih"
  shows "position (handle_event w e st) = position st"
proof (cases e)
  case (MouseMove cx cy)
  with assms show ?thesis by (simp add: drag_move_def handleMouseMove_position)
next
  case MinimizedClick
  with assms show ?thesis
    by (auto simp: handleMinimizedClick_def split: if_splits)
next
  case Collapse
  with assms show ?thesis
    by (cases "isCollapsed st") (simp_all add: handleCollapse_isCollapsed)
qed (use assms in \<open>simp_all add: handleDragStart_def handleResizeStart_def handleMouseUp_def\<close>)

lemma within_contained:
  assumes "within_x w st" and "within_y w st"
    and "footprint_width st \<le> innerWidth w" and "footprint_height st \<le> innerHeight w"
  shows "contained w st"
  using assms by (simp add: within_x_def within_y_def contained_def max_def)

lemma reflowed_WindowResize: "reflowed st (WindowResize iw ih) st'"
  by (simp add: reflowed_def)

lemma reflowed_other:
  assumes "\<forall>iw ih. e \<noteq> WindowResize iw ih"
  shows "reflowed st e st' \<longleftrightarrow> panelSize st' \<noteq> panelSize st \<or> isCollapsed st' \<noteq> isCollapsed st"
  using assms by (cases e) (simp_all add: reflowed_def)

lemma size_changed:
  "width (panelSize b) \<noteq> width (panelSize a) \<or> height (panelSize b) \<noteq> height (panelSize a)
     \<longleftrightarrow> panelSize b \<noteq> panelSize a"
  by (cases "panelSize a"; cases "panelSize b") auto

lemma panel_step_bounds:
  assumes "within_x w st" and "0 \<le> pos_y (position st)"
    and "e = Collapse \<longrightarrow> 60 \<le> innerWidth w \<and> 60 \<le> innerHeight w"
  shows "within_x (fst (panel_step (w, st) e)) (snd (panel_step (w, st) e))
    \<and> 0 \<le> pos_y (position (snd (panel_step (w, st) e)))
    \<and> (reflowed st e (snd (panel_step (w, st) e))
         \<longrightarrow> within_y (fst (panel_step (w, st) e)) (snd (panel_step (w, st) e)))
    \<and> (\<not> drag_move st e \<and> within_y w st
         \<longrightarrow> within_y (fst (panel_step (w, st) e)) (snd (panel_step (w, st) e)))
    \<and> (within_y (fst (panel_step (w, st) e)) (snd (panel_step (w, st) e))
         \<and> footprint_width (snd (panel_step (w, st) e)) \<le> innerWidth (fst (panel_step (w, st) e))
         \<and> footprint_height (snd (panel_step (w, st) e)) \<le> innerHeight (fst (panel_step (w, st) e))
         \<longrightarrow> contained (fst (panel_step (w, st) e)) (snd (panel_step (w, st) e)))"
proof -
  define w' where "w' = new_viewport w e"
  define h where "h = handle_event w' e st"
  define st' where "st' = size_effect w' st h"
  have step: "panel_step (w, st) e = (w', st')"
    by (simp add: panel_step_def Let_def w'_def h_def st'_def)
  from assms(1) have x0: "0 \<le> pos_x (position st)"
    by (simp add: within_x_def)
  have main: "within_x w' st' \<and> 0 \<le> pos_y (position st')
      \<and> (reflowed st e st' \<longrightarrow> within_y w' st')
      \<and> (\<not> drag_move st e \<and> within_y w st \<longrightarrow> within_y w' st')"
  proof (cases "\<exists>iw ih. e = WindowResize iw ih")
    case True
    then obtain iw ih where e: "e = WindowResize iw ih" by blast
    then have h: "h = handleWindowResize w' st"
      by (simp add: h_def)
    then have "st' = h"
      by (simp add: st'_def size_effect_def handleWindowResize_flags)
    with h handleWindowResize_within [OF x0 assms(2), of w']
      handleWindowResize_position(2) [OF x0 assms(2), of w'] assms(2)
    show ?thesis by simp
  next
    case False
    then have other: "\<forall>iw ih. e \<noteq> WindowResize iw ih" by blast
    then have w': "w' = w"
      by (cases e) (simp_all add: w'_def new_viewport_def)
    from handle_event_nonneg [OF x0 assms(2,3) other]
    have hx: "0 \<le> pos_x (position h)" and hy: "0 \<le> pos_y (position h)"
      by (simp_all add: h_def w')
    show ?thesis
    proof (cases "panelSize h \<noteq> panelSize st \<or> isCollapsed h \<noteq> isCollapsed st")
      case True
      then have "st' = handleWindowResize w' h"
        using size_changed [of h st] by (auto simp: st'_def size_effect_def)
      with handleWindowResize_within [OF hx hy, of w']
        handleWindowResize_position(2) [OF hx hy, of w'] hy
      show ?thesis by simp
    next
      case False
      then have same: "panelSize h = panelSize st" "isCollapsed h = isCollapsed st"
        by simp_all
      then have st': "st' = h"
        by (simp add: st'_def size_effect_def)
      have "within_x w h"
        using handle_event_same_footprint [OF assms(1) _ _ other] same
        by (simp add: h_def w')
      moreover have "\<not> reflowed st e h"
        using same by (simp add: reflowed_other [OF other])
      moreover have "within_y w h" if "\<not> drag_move st e" and "within_y w st"
      proof -
        have "position h = position st"
          using handle_event_still [OF that(1) _ _ other, of w] same by (simp add: h_def w')
        with that(2) same show ?thesis
          by (auto simp: within_y_def footprint_height_def)
      qed
      ultimately show ?thesis
        using hy by (simp add: st' w')
    qed
  qed
  moreover have "contained w' st'"
    if "within_y w' st'" "footprint_width st' \<le> innerWidth w'" "footprint_height st' \<le> innerHeight w'"
    using main that by (simp add: within_contained)
  ultimately show ?thesis
    unfolding step by simp
qed

lemma handleMouseMove_drag_y:
  assumes "isDragging st"
  shows "pos_y (position (handleMouseMove w cx cy st)) \<le> max 0 (innerHeight w - 50)"
proof -
  have "max 0 (min a t) \<le> max 0 a" for a t :: rat
    by (simp add: max_def min_def)
  with assms show ?thesis
    by (simp add: handleMouseMove_def Let_def)
qed

lemma panel_step_drag_y:
  assumes "0 \<le> pos_x (position st)" and "0 \<le> pos_y (position st)" and "drag_move st e"
  shows "pos_y (position (snd (panel_step (w, st) e)))
           \<le> max 0 (innerHeight (fst (panel_step (w, st) e)) - 50)"
proof -
  from assms(3) obtain cx cy where e: "e = MouseMove cx cy" and d: "isDragging st"
    by (cases e) (simp_all add: drag_move_def)
  let ?h = "handleMouseMove w cx cy st"
  have hx: "0 \<le> pos_x (position ?h)" and hy: "0 \<le> pos_y (position ?h)"
    using assms(1,2) by (simp_all add: handleMouseMove_position)
  have "pos_y (position (handleWindowResize w ?h)) \<le> pos_y (position ?h)"
    by (simp add: handleWindowResize_position(2) [OF hx hy])
  then have "pos_y (position (size_effect w st ?h)) \<le> pos_y (position ?h)"
    by (simp add: size_effect_def)
  also have "\<dots> \<le> max 0 (innerHeight w - 50)"
    using d by (rule handleMouseMove_drag_y)
  finally show ?thesis
    by (simp add: panel_step_def Let_def new_viewport_def e)
qed

lemma panel_step_still:
  assumes "\<not> reflowed st e (snd (panel_step (w, st) e))" and "\<not> drag_move st e"
  shows "fst (panel_step (w, st) e) = w"
    and "position (snd (panel_step (w, st) e)) = position st"
    and "footprint_height (snd (panel_step (w, st) e)) = footprint_height st"
proof -
  from assms(1) have other: "\<forall>iw ih. e \<noteq> WindowResize iw ih"
    by (auto simp: reflowed_def)
  then have w: "new_viewport w e = w"
    by (cases e) (simp_all add: new_viewport_def)
  let ?h = "handle_event w e st"
  have step: "panel_step (w, st) e = (w, size_effect w st ?h)"
    by (simp add: panel_step_def Let_def w)
  from assms(1) have "panelSize (size_effect w st ?h) = panelSize st"
    and "isCollapsed (size_effect w st ?h) = isCollapsed st"
    unfolding step by (simp_all add: reflowed_other [OF other])
  then have same: "panelSize ?h = panelSize st" "isCollapsed ?h = isCollapsed st"
    by (simp_all add: size_effect_flags)
  then have eff: "size_effect w st ?h = ?h"
    by (simp add: size_effect_def)
  show "fst (panel_step (w, st) e) = w"
    by (simp add: step)
  show "position (snd (panel_step (w, st) e)) = position st"
    using handle_event_still [OF assms(2) same other] by (simp add: step eff)
  show "footprint_height (snd (panel_step (w, st) e)) = footprint_height st"
    using same by (simp add: step eff footprint_height_def)
qed

lemma within_y_grip_y: "within_y w st \<Longrightarrow> grip_y w st"
  by (auto simp: within_y_def grip_y_def max_def min_def split: if_splits)

lemma grip_y_collapsed: "isCollapsed st \<Longrightarrow> grip_y w st \<longleftrightarrow> within_y w st"
  by (simp add: within_y_def grip_y_def footprint_height_def)

lemma drag_y_grip_y:
  assumes "0 \<le> pos_y (position st)" and "pos_y (position st) \<le> max 0 (innerHeight w - 50)"
  shows "grip_y w st"
  using assms by (auto simp: grip_y_def max_def min_def split: if_splits)

text \<open>
  C2, amended. Take a panel whose position satisfies \<open>0 \<le> x \<le> max 0 (viewportWidth -
  panelWidth)\<close> and \<open>0 \<le> y\<close>, and any transition, the viewport being at least 60 by 60
  when the transition is a collapse. After the transition and the effect that follows it,
  the position again satisfies these bounds. It satisfies \<open>y \<le> max 0 (viewportHeight -
  panelHeight)\<close> as well after every transition that reflows the panel (a window resize,
  or any transition that changes the size or the mode: resize-move, collapse, expand),
  and after every transition other than a drag-move when it did so before. After a
  drag-move it satisfies \<open>y \<le> max 0 (viewportHeight - 50)\<close>, which is containment for
  the collapsed icon; and \<open>y \<le> max 0 (viewportHeight - min panelHeight 50)\<close> is kept by
  every transition. Where the bounds with the panel height hold and the viewport is at
  least as large as the footprint of the panel, the position satisfies viewport
  containment. Width and height are those of the current size when expanded and 48 when
  collapsed.
\<close>

theorem panel_step_within:
  assumes "within_x w st" and "0 \<le> pos_y (position st)"
    and "e = Collapse \<longrightarrow> 60 \<le> innerWidth w \<and> 60 \<le> innerHeight w"
  shows "within_x (fst (panel_step (w, st) e)) (snd (panel_step (w, st) e))
    \<and> 0 \<le> pos_y (position (snd (panel_step (w, st) e)))
    \<and> (reflowed st e (snd (panel_step (w, st) e))
         \<longrightarrow> within_y (fst (panel_step (w, st) e)) (snd (panel_step (w, st) e)))
    \<and> (\<not> drag_move st e \<and> within_y w st
         \<longrightarrow> within_y (fst (panel_step (w, st) e)) (snd (panel_step (w, st) e)))
    \<and> (within_y (fst (panel_step (w, st) e)) (snd (panel_step (w, st) e))
         \<and> footprint_width (snd (panel_step (w, st) e)) \<le> innerWidth (fst (panel_step (w, st) e))
         \<and> footprint_height (snd (panel_step (w, st) e)) \<le> innerHeight (fst (panel_step (w, st) e))
         \<longrightarrow> contained (fst (panel_step (w, st) e)) (snd (panel_step (w, st) e)))
    \<and> (drag_move st e
         \<longrightarrow> pos_y (position (snd (panel_step (w, st) e)))
               \<le> max 0 (innerHeight (fst (panel_step (w, st) e)) - 50)
             \<and> (isCollapsed (snd (panel_step (w, st) e))
                  \<longrightarrow> within_y (fst (panel_step (w, st) e)) (snd (panel_step (w, st) e))))
    \<and> (grip_y w st \<longrightarrow> grip_y (fst (panel_step (w, st) e)) (snd (panel_step (w, st) e)))"
proof -
  let ?w' = "fst (panel_step (w, st) e)" and ?st' = "snd (panel_step (w, st) e)"
  note bounds = panel_step_bounds [OF assms]
  from bounds have y0: "0 \<le> pos_y (position ?st')"
    by blast
  from assms(1) have x0: "0 \<le> pos_x (position st)"
    by (simp add: within_x_def)
  have drag: "pos_y (position ?st') \<le> max 0 (innerHeight ?w' - 50)" if "drag_move st e"
    using x0 assms(2) that by (rule panel_step_drag_y)
  have drag_grip: "grip_y ?w' ?st'" if "drag_move st e"
    using y0 drag [OF that] by (rule drag_y_grip_y)
  have icon: "within_y ?w' ?st'" if "drag_move st e" and "isCollapsed ?st'"
    using drag_grip [OF that(1)] that(2) by (simp add: grip_y_collapsed)
  have grip: "grip_y ?w' ?st'" if g: "grip_y w st"
  proof (cases "reflowed st e ?st'")
    case True
    with bounds have "within_y ?w' ?st'" by blast
    then show ?thesis by (rule within_y_grip_y)
  next
    case False
    show ?thesis
    proof (cases "drag_move st e")
      case True
      then show ?thesis by (rule drag_grip)
    next
      case no_drag: False
      from panel_step_still [OF False no_drag] g show ?thesis
        by (simp add: grip_y_def)
    qed
  qed
  from bounds drag icon grip show ?thesis
    by blast
qed

lemma mount_desktop: "panel_mount desktop = (desktop, initial_panel)"
  by (simp add: panel_mount_def handleWindowResize_def Let_def desktop_def initial_panel_def
      DEFAULT_PANEL_SIZE_def)

text \<open>
  C2, as stated, fails for drag-move: in a 1200 by 800 viewport the expanded default
  panel (320 by 400), grabbed at (30, 110) and dragged to (30, 860), settles at
  \<open>y = 750\<close>, beyond \<open>viewportHeight - panelHeight = 400\<close>. The vertical bound of a
  drag is the viewport height less 50, whatever the height of the panel.
\<close>

theorem drag_below_viewport_counterexample:
  "position (snd (panel_run (panel_mount desktop) [DragStart 30 110, MouseMove 30 860]))
     = \<lparr>pos_x = 20, pos_y = 750\<rparr>
   \<and> footprint_height (snd (panel_run (panel_mount desktop) [DragStart 30 110, MouseMove 30 860])) = 400
   \<and> innerHeight (fst (panel_run (panel_mount desktop) [DragStart 30 110, MouseMove 30 860])) = 800
   \<and> \<not> contained (fst (panel_run (panel_mount desktop) [DragStart 30 110, MouseMove 30 860]))
          (snd (panel_run (panel_mount desktop) [DragStart 30 110, MouseMove 30 860]))"
proof -
  have s1: "panel_step (desktop, initial_panel) (DragStart 30 110)
      = (desktop, handleDragStart 30 110 initial_panel)"
    by (simp add: panel_step_def Let_def new_viewport_def size_effect_def handleDragStart_def)
  have s2: "panel_step (desktop, handleDragStart 30 110 initial_panel) (MouseMove 30 860)
      = (desktop, handleDragStart 30 110 initial_panel
           \<lparr>hasDragged := True, position := \<lparr>pos_x = 20, pos_y = 750\<rparr>\<rparr>)"
    by (simp add: panel_step_def Let_def new_viewport_def size_effect_def handleDragStart_def
        handleMouseMove_def initial_panel_def desktop_def DEFAULT_PANEL_SIZE_def)
  have run: "panel_run (panel_mount desktop) [DragStart 30 110, MouseMove 30 860]
      = (desktop, handleDragStart 30 110 initial_panel
           \<lparr>hasDragged := True, position := \<lparr>pos_x = 20, pos_y = 750\<rparr>\<rparr>)"
    by (simp add: panel_run_def mount_desktop s1 s2)
  show ?thesis
    unfolding run
    by (simp add: contained_def footprint_height_def footprint_width_def handleDragStart_def
        initial_panel_def desktop_def DEFAULT_PANEL_SIZE_def)
qed

text \<open>
  The side condition of a collapse is needed: in a viewport 50 wide the mounted default
  panel, collapsed, snaps to the right edge at \<open>x = 50 - 48 - 12\<close>, left of the
  viewport, and the reflow that follows leaves it there.
\<close>

lemma collapse_narrow_viewport:
  "position (snd (panel_run (panel_mount narrow) [Collapse])) = \<lparr>pos_x = - 10, pos_y = 276\<rparr>
   \<and> isCollapsed (snd (panel_run (panel_mount narrow) [Collapse]))"
proof -
  have m: "panel_mount narrow = (narrow, initial_panel\<lparr>position := \<lparr>pos_x = 0, pos_y = 100\<rparr>\<rparr>)"
    by (simp add: panel_mount_def handleWindowResize_def Let_def narrow_def initial_panel_def
        DEFAULT_PANEL_SIZE_def)
  have c: "handleCollapse narrow (initial_panel\<lparr>position := \<lparr>pos_x = 0, pos_y = 100\<rparr>\<rparr>)
      = initial_panel\<lparr>position := \<lparr>pos_x = - 10, pos_y = 276\<rparr>, isCollapsed := True\<rparr>"
    by (simp add: handleCollapse_def Let_def initial_panel_def narrow_def DEFAULT_PANEL_SIZE_def)
  have s: "panel_step (narrow, initial_panel\<lparr>position := \<lparr>pos_x = 0, pos_y = 100\<rparr>\<rparr>) Collapse
      = (narrow, initial_panel\<lparr>position := \<lparr>pos_x = - 10, pos_y = 276\<rparr>, isCollapsed := True\<rparr>)"
    by (simp add: panel_step_def Let_def new_viewport_def c)
       (simp add: size_effect_def handleWindowResize_def Let_def initial_panel_def narrow_def)
  show ?thesis
    by (simp add: panel_run_def m s)
qed

lemma drag_step_desktop:
  "panel_step (desktop, handleDragStart 30 110 initial_panel) (MouseMove 30 860)
      = (desktop, handleDragStart 30 110 initial_panel
           \<lparr>hasDragged := True, position := \<lparr>pos_x = 20, pos_y = 750\<rparr>\<rparr>)"
  by (simp add: panel_step_def Let_def new_viewport_def size_effect_def handleDragStart_def
      handleMouseMove_def initial_panel_def desktop_def DEFAULT_PANEL_SIZE_def)

theorem panel_step_within_witness:
  "within_x desktop initial_panel \<and> 0 \<le> pos_y (position initial_panel)
   \<and> 60 \<le> innerWidth desktop \<and> 60 \<le> innerHeight desktop
   \<and> position (snd (panel_step (desktop, initial_panel) Collapse)) = \<lparr>pos_x = 12, pos_y = 276\<rparr>
   \<and> isCollapsed (snd (panel_step (desktop, initial_panel) Collapse))
   \<and> contained (fst (panel_step (desktop, initial_panel) Collapse))
        (snd (panel_step (desktop, initial_panel) Collapse))
   \<and> drag_move (handleDragStart 30 110 initial_panel) (MouseMove 30 860)
   \<and> pos_y (position (snd (panel_step (desktop, handleDragStart 30 110 initial_panel)
        (MouseMove 30 860)))) = 750
   \<and> max 0 (innerHeight desktop - 50) = 750"
proof -
  have wx: "within_x desktop initial_panel"
    by (simp add: within_x_def footprint_width_def initial_panel_def desktop_def DEFAULT_PANEL_SIZE_def)
  have y0: "0 \<le> pos_y (position initial_panel)"
    by (simp add: initial_panel_def)
  have big: "Collapse = Collapse \<longrightarrow> 60 \<le> innerWidth desktop \<and> 60 \<le> innerHeight desktop"
    by (simp add: desktop_def)
  have c: "handleCollapse desktop initial_panel
      = initial_panel\<lparr>position := \<lparr>pos_x = 12, pos_y = 276\<rparr>, isCollapsed := True\<rparr>"
    by (simp add: handleCollapse_def Let_def initial_panel_def desktop_def DEFAULT_PANEL_SIZE_def)
  have s: "panel_step (desktop, initial_panel) Collapse
      = (desktop, initial_panel\<lparr>position := \<lparr>pos_x = 12, pos_y = 276\<rparr>, isCollapsed := True\<rparr>)"
    by (simp add: panel_step_def Let_def new_viewport_def c)
       (simp add: size_effect_def handleWindowResize_def Let_def initial_panel_def desktop_def)
  have r: "reflowed initial_panel Collapse
      (initial_panel\<lparr>position := \<lparr>pos_x = 12, pos_y = 276\<rparr>, isCollapsed := True\<rparr>)"
    by (simp add: reflowed_def initial_panel_def)
  have collapse: "position (snd (panel_step (desktop, initial_panel) Collapse))
        = \<lparr>pos_x = 12, pos_y = 276\<rparr>
      \<and> isCollapsed (snd (panel_step (desktop, initial_panel) Collapse))
      \<and> contained (fst (panel_step (desktop, initial_panel) Collapse))
          (snd (panel_step (desktop, initial_panel) Collapse))"
    using panel_step_within [OF wx y0 big] r
    unfolding s
    by (simp add: footprint_width_def footprint_height_def desktop_def)
  have wx': "within_x desktop (handleDragStart 30 110 initial_panel)"
    by (simp add: within_x_def footprint_width_def handleDragStart_def initial_panel_def
        desktop_def DEFAULT_PANEL_SIZE_def)
  have y0': "0 \<le> pos_y (position (handleDragStart 30 110 initial_panel))"
    by (simp add: handleDragStart_def initial_panel_def)
  have dm: "drag_move (handleDragStart 30 110 initial_panel) (MouseMove 30 860)"
    by (simp add: drag_move_def handleDragStart_def)
  have "pos_y (position (snd (panel_step (desktop, handleDragStart 30 110 initial_panel)
        (MouseMove 30 860)))) \<le> max 0 (innerHeight desktop - 50)"
    using panel_step_within [OF wx' y0', of "MouseMove 30 860"] dm
    by (simp add: drag_step_desktop)
  moreover have "pos_y (position (snd (panel_step (desktop, handleDragStart 30 110 initial_panel)
        (MouseMove 30 860)))) = 750"
    by (simp add: drag_step_desktop)
  moreover have "max 0 (innerHeight desktop - 50) = (750 :: rat)"
    by (simp add: desktop_def)
  ultimately show ?thesis
    using collapse wx y0 dm by (simp add: desktop_def)
qed

end
